theory Spec2Isabelle
  imports Main "HOL-Library.Char_ord" "HOL-Library.List_Lexorder" "HOL-Library.AList"
begin

section \<open>Ink Gateway orchestrator (engine.py, phase 1)\<close>

text \<open>
  A shallow embedding of \<^verbatim>\<open>src/engine.py\<close>. Python's \<^verbatim>\<open>str\<close> is modelled as
  \<^typ>\<open>string\<close>: a list of code points below 256, compared by code point
  (\<^verbatim>\<open>HOL-Library.Char_ord\<close>), with lists compared lexicographically
  (\<^verbatim>\<open>HOL-Library.List_Lexorder\<close>) as Python compares strings and lists. The three
  log messages of the source that hold a character beyond that range (an em dash, an
  arrow) are written with \<^verbatim>\<open>-\<close> and \<^verbatim>\<open>->\<close>; the one property that reads such
  a message, the skip warning of the snapshotter, reads it in this spelling.
  Names that start with an underscore in the source lose it (\<^verbatim>\<open>_run\<close> is \<open>run\<close>,
  \<^verbatim>\<open>_count_words\<close> is \<open>count_words\<close>).
\<close>

subsection \<open>Python strings\<close>

text \<open>\<^verbatim>\<open>str.isspace\<close> on one code point below 256.\<close>

definition isspace :: "char \<Rightarrow> bool" where
  "isspace c = (c \<in> {CHR 0x09, CHR 0x0A, CHR 0x0B, CHR 0x0C, CHR 0x0D,
                     CHR 0x1C, CHR 0x1D, CHR 0x1E, CHR 0x1F, CHR '' '', CHR 0x85, CHR 0xA0})"

text \<open>\<^verbatim>\<open>s.rstrip(chars)\<close> and \<^verbatim>\<open>s.strip()\<close>.\<close>

definition rstrip :: "string \<Rightarrow> string \<Rightarrow> string" where
  "rstrip chars s = rev (dropWhile (\<lambda>c. c \<in> set chars) (rev s))"

definition strip :: "string \<Rightarrow> string" where
  "strip s = rev (dropWhile isspace (rev (dropWhile isspace s)))"

text \<open>\<^verbatim>\<open>s.split(sep)\<close> for a separator of one character: never the empty list.\<close>

fun split_from :: "char \<Rightarrow> string \<Rightarrow> string \<Rightarrow> string list" where
  \<comment> \<open>the second argument is the piece being read, last character first\<close>
  "split_from sep cur [] = [rev cur]"
| "split_from sep cur (c # cs) =
     (if c = sep then rev cur # split_from sep [] cs else split_from sep (c # cur) cs)"

definition split :: "char \<Rightarrow> string \<Rightarrow> string list" where
  "split sep s = split_from sep [] s"

text \<open>\<^verbatim>\<open>s.split()\<close>: the maximal runs of characters that are not whitespace.\<close>

function split_ws :: "string \<Rightarrow> string list" where
  "split_ws s =
     (let s' = dropWhile isspace s
      in if s' = [] then []
         else takeWhile (\<lambda>c. \<not> isspace c) s' # split_ws (dropWhile (\<lambda>c. \<not> isspace c) s'))"
  by pat_completeness auto
termination
proof (relation "measure length")
  show "wf (measure length)" by simp
next
  fix s s' :: string
  assume a: "s' = dropWhile isspace s" "s' \<noteq> []"
  have "length (dropWhile (\<lambda>c. \<not> isspace c) s') < length s'"
  proof (cases s')
    case Nil
    with a show ?thesis by simp
  next
    case (Cons x xs)
    with a have "\<not> isspace x" by (metis hd_dropWhile list.sel(1))
    with Cons show ?thesis by (simp add: le_imp_less_Suc length_dropWhile_le)
  qed
  moreover have "length s' \<le> length s" using a by (simp add: length_dropWhile_le)
  ultimately show "(dropWhile (\<lambda>c. \<not> isspace c) s', s) \<in> measure length" by simp
qed

text \<open>\<^verbatim>\<open>sep.join(xs)\<close>, \<^verbatim>\<open>sub in s\<close>, and \<^verbatim>\<open>str(n)\<close> for an integer.\<close>

fun join :: "string \<Rightarrow> string list \<Rightarrow> string" where
  "join sep [] = []"
| "join sep [x] = x"
| "join sep (x # y # ys) = x @ sep @ join sep (y # ys)"

fun contains :: "string \<Rightarrow> string \<Rightarrow> bool" where
  "contains sub [] = (sub = [])"
| "contains sub (c # cs) = (take (length sub) (c # cs) = sub \<or> contains sub cs)"

fun str_nat :: "nat \<Rightarrow> string" where
  "str_nat n =
     (if n < 10 then [''0123456789'' ! n]
      else str_nat (n div 10) @ [''0123456789'' ! (n mod 10)])"

definition str_int :: "int \<Rightarrow> string" where
  "str_int i = (if i < 0 then CHR ''-'' # str_nat (nat (- i)) else str_nat (nat i))"

text \<open>\<^verbatim>\<open>"%0wd" % n\<close> for a natural number.\<close>

definition zfill :: "nat \<Rightarrow> string \<Rightarrow> string" where
  "zfill w s = replicate (w - length s) CHR ''0'' @ s"

text \<open>\<^verbatim>\<open>fnmatch\<close> for the patterns the program uses: \<^verbatim>\<open>*\<close> matches any run of
  characters, every other character matches itself (none of the three patterns holds
  \<^verbatim>\<open>?\<close> or \<^verbatim>\<open>[\<close>).\<close>

fun fnmatch :: "string \<Rightarrow> string \<Rightarrow> bool" where
  "fnmatch [] n = (n = [])"
| "fnmatch (p # ps) [] = (p = CHR ''*'' \<and> fnmatch ps [])"
| "fnmatch (p # ps) (c # cs) =
     (if p = CHR ''*'' then fnmatch ps (c # cs) \<or> fnmatch (p # ps) cs
      else p = c \<and> fnmatch ps cs)"

subsection \<open>Dates\<close>

text \<open>\<^verbatim>\<open>datetime.date\<close> and \<^verbatim>\<open>date.isoformat()\<close> (\<^verbatim>\<open>%04d-%02d-%02d\<close>).\<close>

record date =
  year :: nat
  month :: nat
  day :: nat

definition isoformat :: "date \<Rightarrow> string" where
  "isoformat d =
     zfill 4 (str_nat (year d)) @ ''-'' @ zfill 2 (str_nat (month d)) @ ''-'' @
     zfill 2 (str_nat (day d))"

subsection \<open>Paths and the file system\<close>

text \<open>
  A \<^verbatim>\<open>pathlib\<close> path is the list of its parts; an absolute path starts with the part
  \<^verbatim>\<open>/\<close>. \<^verbatim>\<open>sorted\<close> over paths compares these lists (\<^verbatim>\<open>PurePath.__lt__\<close> compares
  the parts), so a path list is sorted with \<^const>\<open>sort\<close> at type \<open>string list list\<close>.
  The file system is a tree; a directory lists its entries in the order the operating
  system enumerates them, a file carries the local calendar date of its modification
  time and its text (\<open>None\<close> when the bytes do not decode as UTF-8).
\<close>

type_synonym path = "string list"

datatype node = File date "string option" | Dir "(string \<times> node) list"

definition path_div :: "path \<Rightarrow> string \<Rightarrow> path" where
  \<comment> \<open>\<^verbatim>\<open>p / name\<close> for a name without a slash: an empty name and \<^verbatim>\<open>.\<close> add nothing\<close>
  "path_div p n = (if n = [] \<or> n = ''.'' then p else p @ [n])"

definition parent :: "path \<Rightarrow> path" where
  "parent p = (if length p \<le> 1 then p else butlast p)"

definition name :: "path \<Rightarrow> string" where
  "name p = (if p = [] \<or> p = [''/''] then [] else last p)"

definition path_str :: "path \<Rightarrow> string" where
  "path_str p =
     (case p of [] \<Rightarrow> ''.''
      | x # xs \<Rightarrow> if x = ''/'' then ''/'' @ join ''/'' xs else join ''/'' p)"

text \<open>
  Resolution of a path from a directory: a name descends, \<^verbatim>\<open>..\<close> goes back to the
  directory above (the root is above itself). The first argument holds the directories
  above the current one, nearest first. Only absolute paths occur in the program.
\<close>

fun lookup :: "node list \<Rightarrow> node \<Rightarrow> string list \<Rightarrow> node option" where
  "lookup up n [] = Some n"
| "lookup up (File d t) (x # xs) = None"
| "lookup up (Dir es) (x # xs) =
     (if x = ''..'' then
        (case up of [] \<Rightarrow> lookup [] (Dir es) xs | u # us \<Rightarrow> lookup us u xs)
      else
        (case map_of es x of None \<Rightarrow> None | Some c \<Rightarrow> lookup (Dir es # up) c xs))"

definition resolve :: "node \<Rightarrow> path \<Rightarrow> node option" where
  "resolve fs p =
     (case p of [] \<Rightarrow> None | r # rest \<Rightarrow> if r = ''/'' then lookup [] fs rest else None)"

definition exists_path :: "node \<Rightarrow> path \<Rightarrow> bool" where
  "exists_path fs p = (resolve fs p \<noteq> None)"

definition is_file :: "node \<Rightarrow> path \<Rightarrow> bool" where
  "is_file fs p = (case resolve fs p of Some (File d t) \<Rightarrow> True | _ \<Rightarrow> False)"

definition mtime_date :: "node \<Rightarrow> path \<Rightarrow> date option" where
  \<comment> \<open>\<^verbatim>\<open>date.fromtimestamp(path.stat().st_mtime)\<close> of a file\<close>
  "mtime_date fs p = (case resolve fs p of Some (File d t) \<Rightarrow> Some d | _ \<Rightarrow> None)"

text \<open>
  \<^verbatim>\<open>dir.glob(pat)\<close> for a pattern without a slash: the entries of the directory whose
  name matches, files and directories alike, in enumeration order; nothing when the path
  is not a directory. \<^verbatim>\<open>dir.rglob(pat)\<close> does the same in the directory and in every
  directory below it, each directory before the directories it holds.
\<close>

definition children :: "string \<Rightarrow> path \<Rightarrow> (string \<times> node) list \<Rightarrow> path list" where
  "children pat p es = map (\<lambda>e. p @ [fst e]) (filter (\<lambda>e. fnmatch pat (fst e)) es)"

fun walk :: "path \<Rightarrow> node \<Rightarrow> (path \<times> (string \<times> node) list) list" where
  "walk p (File d t) = []"
| "walk p (Dir es) = (p, es) # concat (map (\<lambda>e. walk (p @ [fst e]) (snd e)) es)"

definition glob :: "node \<Rightarrow> path \<Rightarrow> string \<Rightarrow> path list" where
  "glob fs dir pat =
     (case resolve fs dir of Some (Dir es) \<Rightarrow> children pat dir es | _ \<Rightarrow> [])"

definition rglob :: "node \<Rightarrow> path \<Rightarrow> string \<Rightarrow> path list" where
  "rglob fs dir pat =
     (case resolve fs dir of
        Some n \<Rightarrow> concat (map (\<lambda>de. children pat (fst de) (snd de)) (walk dir n))
      | None \<Rightarrow> [])"

subsection \<open>Errors, processes, the world\<close>

datatype error =
    RuntimeError string
  | OSError string
  | UnicodeDecodeError
  | ValueError
  | AttributeError
  | KeyError
  | YAMLError string

text \<open>\<^verbatim>\<open>subprocess.CompletedProcess\<close> of a run with captured text output.\<close>

record completed =
  returncode :: int
  stdout :: string
  stderr :: string

text \<open>
  The world the program runs in: the file system, the calendar date, and whatever else
  the processes it starts can see and change (the repository, the remote), left open.
  \<^verbatim>\<open>subprocess.run\<close> is a parameter of the program: from the command, the working
  directory and the world it gives the completed process, or the exception it raises
  (the executable is missing, the output does not decode), and the world afterwards.
\<close>

record 'g world =
  files :: node
  clock :: date
  ext :: 'g

type_synonym 'g subprocess =
  "string list \<Rightarrow> path \<Rightarrow> 'g world \<Rightarrow> (error + completed) \<times> 'g world"

text \<open>
  A log record keeps its level, its message and the arguments of the message, as
  \<^verbatim>\<open>logging\<close> does before a handler formats them.
\<close>

datatype level = INFO | WARNING | ERROR

datatype yaml =
    YNull
  | YBool bool
  | YInt int
  | YStr string
  | YSeq "yaml list"
  | YMap "(yaml \<times> yaml) list"
  | YOther bool

datatype arg = AStr string | AInt int | APath path | AObj yaml

type_synonym logrec = "level \<times> string \<times> arg list"

text \<open>
  The state of a run: the world, the records logged so far, and every call of
  \<^verbatim>\<open>subprocess.run\<close> made so far (command and working directory), oldest first.
  A program step takes the state and gives its result, or the exception it raises, and
  the state it leaves.
\<close>

record 'g state =
  world :: "'g world"
  logged :: "logrec list"
  spawned :: "(string list \<times> path) list"

type_synonym ('g, 'a) prog = "'g state \<Rightarrow> (error + 'a) \<times> 'g state"

definition return :: "'a \<Rightarrow> ('g, 'a) prog" where
  "return a s = (Inr a, s)"

definition raise :: "error \<Rightarrow> ('g, 'a) prog" where
  "raise e s = (Inl e, s)"

definition bind :: "('g, 'a) prog \<Rightarrow> ('a \<Rightarrow> ('g, 'b) prog) \<Rightarrow> ('g, 'b) prog" where
  "bind m f s = (case m s of (Inl e, s') \<Rightarrow> (Inl e, s') | (Inr a, s') \<Rightarrow> f a s')"

definition lift :: "error + 'a \<Rightarrow> ('g, 'a) prog" where
  "lift r s = (r, s)"

definition gets :: "('g world \<Rightarrow> 'a) \<Rightarrow> ('g, 'a) prog" where
  "gets f s = (Inr (f (world s)), s)"

definition log :: "level \<Rightarrow> string \<Rightarrow> arg list \<Rightarrow> ('g, unit) prog" where
  "log lv msg as s = (Inr (), s\<lparr>logged := logged s @ [(lv, msg, as)]\<rparr>)"

definition subprocess_run :: "'g subprocess \<Rightarrow> string list \<Rightarrow> path \<Rightarrow> ('g, completed) prog" where
  "subprocess_run sp cmd cwd s =
     (case sp cmd cwd (world s) of
        (r, w') \<Rightarrow> (r, s\<lparr>world := w', spawned := spawned s @ [(cmd, cwd)]\<rparr>))"

fun mapM :: "('a \<Rightarrow> ('g, 'b) prog) \<Rightarrow> 'a list \<Rightarrow> ('g, 'b list) prog" where
  "mapM f [] = return []"
| "mapM f (x # xs) = bind (f x) (\<lambda>y. bind (mapM f xs) (\<lambda>ys. return (y # ys)))"

text \<open>\<^verbatim>\<open>path.read_text(encoding="utf-8")\<close> and \<^verbatim>\<open>path.relative_to(base)\<close>.\<close>

definition read_text :: "path \<Rightarrow> ('g, string) prog" where
  "read_text p =
     bind (gets (\<lambda>w. resolve (files w) p)) (\<lambda>n.
       case n of
         None \<Rightarrow> raise (OSError ''FileNotFoundError'')
       | Some (Dir es) \<Rightarrow> raise (OSError ''IsADirectoryError'')
       | Some (File d None) \<Rightarrow> raise UnicodeDecodeError
       | Some (File d (Some t)) \<Rightarrow> return t)"

definition relative_to :: "path \<Rightarrow> path \<Rightarrow> error + path" where
  "relative_to p base =
     (if take (length base) p = base then Inr (drop (length base) p) else Inl ValueError)"

subsection \<open>Helpers\<close>

text \<open>\<^verbatim>\<open>_run(cmd, cwd, check=True)\<close>.\<close>

definition run :: "'g subprocess \<Rightarrow> string list \<Rightarrow> path \<Rightarrow> bool \<Rightarrow> ('g, completed) prog" where
  "run sp cmd cwd check =
     bind (log INFO ''$ %s'' [AStr (join '' '' cmd)]) (\<lambda>_.
     bind (subprocess_run sp cmd cwd) (\<lambda>result.
     bind (if strip (stdout result) \<noteq> [] then log INFO (strip (stdout result)) []
           else return ()) (\<lambda>_.
     bind (if returncode result \<noteq> 0 then
             bind (if strip (stderr result) \<noteq> [] then log ERROR (strip (stderr result)) []
                   else return ()) (\<lambda>_.
             if check then
               raise (RuntimeError (''Command failed (exit '' @ str_int (returncode result)
                                     @ ''): '' @ join '' '' cmd))
             else return ())
           else return ()) (\<lambda>_.
     return result))))"

definition count_words :: "string \<Rightarrow> nat" where
  "count_words t = length (split_ws t)"

subsection \<open>Constants\<close>

text \<open>A Python \<^verbatim>\<open>dict\<close> is the list of its items in insertion order, keys distinct;
  a value \<^verbatim>\<open>yaml.safe_load\<close> can give is a \<^typ>\<open>yaml\<close> (\<open>YOther b\<close> is any
  object that is not listed, a float or a set, with its truth value \<open>b\<close>).\<close>

type_synonym dict = "(yaml \<times> yaml) list"

definition BOOKS_ROOT :: path where
  "BOOKS_ROOT = [''/'', ''data'', ''ink-gateway'', ''books'']"

definition DEFAULTS :: dict where
  "DEFAULTS =
     [(YStr ''model'', YStr ''claude-opus-4-6''),
      (YStr ''target_length'', YInt 90000),
      (YStr ''chapter_count'', YInt 30),
      (YStr ''chapter_structure'', YStr ''linear''),
      (YStr ''nightly_output_target'', YInt 1500)]"

text \<open>Truth value of an object, \<^verbatim>\<open>obj.items()\<close>, \<^verbatim>\<open>dict(pairs)\<close>,
  \<^verbatim>\<open>d.update(other)\<close> and \<^verbatim>\<open>d[k]\<close>.\<close>

fun truthy :: "yaml \<Rightarrow> bool" where
  "truthy YNull = False"
| "truthy (YBool b) = b"
| "truthy (YInt i) = (i \<noteq> 0)"
| "truthy (YStr s) = (s \<noteq> [])"
| "truthy (YSeq xs) = (xs \<noteq> [])"
| "truthy (YMap m) = (m \<noteq> [])"
| "truthy (YOther b) = b"

definition items :: "yaml \<Rightarrow> error + dict" where
  "items v = (case v of YMap m \<Rightarrow> Inr m | _ \<Rightarrow> Inl AttributeError)"

definition dict_update :: "dict \<Rightarrow> (yaml \<times> yaml) list \<Rightarrow> dict" where
  "dict_update d kvs = fold (\<lambda>kv acc. AList.update (fst kv) (snd kv) acc) kvs d"

definition dict_of :: "(yaml \<times> yaml) list \<Rightarrow> dict" where
  "dict_of kvs = dict_update [] kvs"

definition dict_get :: "dict \<Rightarrow> yaml \<Rightarrow> error + yaml" where
  "dict_get d k = (case map_of d k of None \<Rightarrow> Inl KeyError | Some v \<Rightarrow> Inr v)"

subsection \<open>Core functions\<close>

definition book_name_from_url :: "string \<Rightarrow> string" where
  "book_name_from_url url = last (split CHR ''/'' (rstrip ''/'' url))"

text \<open>\<^verbatim>\<open>path.mkdir(parents=True, exist_ok=True)\<close> on the tree below the root.\<close>

fun mkdir_p :: "node \<Rightarrow> string list \<Rightarrow> error + node" where
  "mkdir_p (Dir es) [] = Inr (Dir es)"
| "mkdir_p (File d t) [] = Inl (OSError ''FileExistsError'')"
| "mkdir_p (File d t) (x # xs) = Inl (OSError ''NotADirectoryError'')"
| "mkdir_p (Dir es) (x # xs) =
     (case map_of es x of
        None \<Rightarrow>
          (case mkdir_p (Dir []) xs of
             Inl e \<Rightarrow> Inl e | Inr c \<Rightarrow> Inr (Dir (es @ [(x, c)])))
      | Some c \<Rightarrow>
          (case mkdir_p c xs of
             Inl e \<Rightarrow> Inl e | Inr c' \<Rightarrow> Inr (Dir (AList.update x c' es))))"

definition mkdir_parents :: "path \<Rightarrow> ('g, unit) prog" where
  "mkdir_parents p s =
     (case (case p of [] \<Rightarrow> Inl (OSError ''FileNotFoundError'')
            | r # rest \<Rightarrow>
                if r = ''/'' then mkdir_p (files (world s)) rest
                else Inl (OSError ''FileNotFoundError'')) of
        Inl e \<Rightarrow> (Inl e, s)
      | Inr fs' \<Rightarrow> (Inr (), s\<lparr>world := (world s)\<lparr>files := fs'\<rparr>\<rparr>))"

definition ensure_repo :: "'g subprocess \<Rightarrow> string \<Rightarrow> path \<Rightarrow> ('g, unit) prog" where
  "ensure_repo sp url book_dir =
     bind (gets (\<lambda>w. exists_path (files w) book_dir)) (\<lambda>ex.
     if ex then
       bind (log INFO ''Repo already cloned at %s - fetching.'' [APath book_dir]) (\<lambda>_.
       bind (run sp [''git'', ''fetch'', ''--all'', ''--tags''] book_dir True) (\<lambda>_.
       return ()))
     else
       bind (log INFO ''Cloning %s -> %s'' [AStr url, APath book_dir]) (\<lambda>_.
       bind (mkdir_parents (parent book_dir)) (\<lambda>_.
       bind (run sp [''git'', ''clone'', url, path_str book_dir] (parent book_dir) True) (\<lambda>_.
       return ()))))"

text \<open>\<^verbatim>\<open>yaml.safe_load\<close> is a parameter: from the text of the file it gives the
  document, \<open>YNull\<close> for an empty one, or the parse error.\<close>

definition load_config :: "(string \<Rightarrow> error + yaml) \<Rightarrow> path \<Rightarrow> ('g, dict) prog" where
  "load_config safe_load book_dir =
     (let config_path = path_div (path_div book_dir ''Global Material'') ''Config.yml'';
          config = DEFAULTS
      in
      bind (gets (\<lambda>w. exists_path (files w) config_path)) (\<lambda>ex.
      bind (if ex then
              bind (read_text config_path) (\<lambda>fh.
              bind (lift (safe_load fh)) (\<lambda>doc.
              let overrides = (if truthy doc then doc else YMap []) in
              bind (lift (items overrides)) (\<lambda>kvs.
              let config' =
                    dict_update config
                      (dict_of (filter (\<lambda>kv. fst kv \<in> set (map fst DEFAULTS)) kvs)) in
              bind (log INFO ''Config loaded from %s'' [APath config_path]) (\<lambda>_.
              return config'))))
            else
              bind (log WARNING ''Config.yml not found - using defaults.'' []) (\<lambda>_.
              return config)) (\<lambda>config.
      bind (log INFO ''Config: %s'' [AObj (YMap config)]) (\<lambda>_.
      return config))))"

definition detect_human_edits :: "path \<Rightarrow> ('g, path list) prog" where
  "detect_human_edits book_dir =
     bind (gets clock) (\<lambda>today.
     bind (gets (\<lambda>w.
             filter (\<lambda>p. ''.git'' \<notin> set p \<and> is_file (files w) p \<and>
                        mtime_date (files w) p = Some today)
               (rglob (files w) book_dir ''*''))) (\<lambda>modified.
     bind (if modified \<noteq> [] then
             bind (log INFO ''Human edits detected today (%d file(s)):''
                     [AInt (int (length modified))]) (\<lambda>_.
             bind (mapM (\<lambda>p. bind (lift (relative_to p book_dir)) (\<lambda>rel.
                                log INFO ''  %s'' [APath rel])) modified) (\<lambda>_.
             return ()))
           else log INFO ''No human edits detected today.'' []) (\<lambda>_.
     return modified)))"

definition commit_human_edits :: "'g subprocess \<Rightarrow> path \<Rightarrow> path list \<Rightarrow> ('g, unit) prog" where
  "commit_human_edits sp book_dir fls =
     bind (run sp [''git'', ''add'', ''.''] book_dir True) (\<lambda>_.
     bind (run sp [''git'', ''commit'', ''-m'', ''chore: human updates''] book_dir True) (\<lambda>_.
     bind (run sp [''git'', ''push'', ''origin'', ''main''] book_dir True) (\<lambda>_.
     log INFO ''Human edits committed and pushed to main.'' [])))"

definition snapshot :: "'g subprocess \<Rightarrow> path \<Rightarrow> ('g, string) prog" where
  "snapshot sp book_dir =
     bind (gets clock) (\<lambda>today.
     let tag = ''pre-nightly-'' @ isoformat today in
     bind (run sp [''git'', ''tag'', tag] book_dir False) (\<lambda>result.
     bind (if returncode result \<noteq> 0 \<and> contains ''already exists'' (stderr result) then
             log WARNING ''Tag %s already exists - skipping.'' [AStr tag]
           else
             bind (run sp [''git'', ''push'', ''origin'', tag] book_dir True) (\<lambda>_.
             log INFO ''Snapshot tag created: %s'' [AStr tag])) (\<lambda>_.
     return tag)))"

definition branch_for_draft :: "'g subprocess \<Rightarrow> path \<Rightarrow> ('g, unit) prog" where
  "branch_for_draft sp book_dir =
     bind (run sp [''git'', ''branch'', ''--list'', ''draft''] book_dir False) (\<lambda>result.
     let draft_exists_locally = (strip (stdout result) \<noteq> []) in
     bind (run sp [''git'', ''ls-remote'', ''--heads'', ''origin'', ''draft''] book_dir False)
       (\<lambda>remote_result.
     let draft_exists_remotely = (strip (stdout remote_result) \<noteq> []) in
     bind (if \<not> draft_exists_locally \<and> \<not> draft_exists_remotely then
             bind (log INFO ''Creating draft branch from main.'' []) (\<lambda>_.
             bind (run sp [''git'', ''checkout'', ''-b'', ''draft'', ''main''] book_dir True) (\<lambda>_.
             bind (run sp [''git'', ''push'', ''-u'', ''origin'', ''draft''] book_dir True) (\<lambda>_.
             return ())))
           else
             bind (run sp [''git'', ''checkout'', ''draft''] book_dir True) (\<lambda>_.
             bind (run sp [''git'', ''rebase'', ''main''] book_dir True) (\<lambda>_.
             return ()))) (\<lambda>_.
     log INFO ''On draft branch, rebased onto main.'' [])))"

text \<open>The payload: \<^verbatim>\<open>{"context_sections": [{"path": ..., "content": ...}, ...],
  "word_count": ..., "config": ...}\<close>.\<close>

record context_section =
  path :: string
  content :: string

record payload =
  context_sections :: "context_section list"
  word_count :: nat
  config :: dict

definition build_payload :: "path \<Rightarrow> dict \<Rightarrow> ('g, payload) prog" where
  "build_payload book_dir cfg =
     (let global_dir = path_div book_dir ''Global Material'' in
      bind (gets (\<lambda>w. exists_path (files w) global_dir)) (\<lambda>ex.
      bind (if ex then
              bind (gets (\<lambda>w. sort (glob (files w) global_dir ''*.md''))) (\<lambda>md_files.
              mapM (\<lambda>md_file.
                bind (read_text md_file) (\<lambda>text.
                bind (lift (relative_to md_file book_dir)) (\<lambda>rel.
                bind (log INFO ''Loaded: %s (%d words)''
                        [AStr (name md_file), AInt (int (count_words text))]) (\<lambda>_.
                return \<lparr>path = path_str rel, content = text\<rparr>)))) md_files)
            else return []) (\<lambda>global_sections.
      let chapters_dir = path_div book_dir ''Chapters material'' in
      bind (gets (\<lambda>w. exists_path (files w) chapters_dir)) (\<lambda>ex.
      bind (if ex then
              bind (gets (\<lambda>w. sort (rglob (files w) chapters_dir ''*.md''))) (\<lambda>md_files.
              mapM (\<lambda>md_file.
                bind (read_text md_file) (\<lambda>text.
                bind (lift (relative_to md_file book_dir)) (\<lambda>rel.
                bind (log INFO ''Loaded: %s (%d words)''
                        [APath rel, AInt (int (count_words text))]) (\<lambda>_.
                return \<lparr>path = path_str rel, content = text\<rparr>)))) md_files)
            else return []) (\<lambda>chapter_sections.
      let current_md = path_div (path_div book_dir ''Review'') ''current.md'' in
      bind (gets (\<lambda>w. exists_path (files w) current_md)) (\<lambda>ex.
      bind (if ex then
              bind (read_text current_md) (\<lambda>text.
              bind (lift (relative_to current_md book_dir)) (\<lambda>rel.
              bind (log INFO ''Loaded: Review/current.md (%d words)''
                      [AInt (int (count_words text))]) (\<lambda>_.
              return [\<lparr>path = path_str rel, content = text\<rparr>])))
            else
              bind (log WARNING ''Review/current.md not found - starting fresh.'' []) (\<lambda>_.
              return [])) (\<lambda>review_sections.
      let sections = global_sections @ chapter_sections @ review_sections;
          current_version_dir = path_div book_dir ''Current version'' in
      bind (gets (\<lambda>w. exists_path (files w) current_version_dir)) (\<lambda>ex.
      bind (if ex then
              bind (gets (\<lambda>w. sort (glob (files w) current_version_dir ''Full_Book_*.md'')))
                (\<lambda>candidates.
              if candidates \<noteq> [] then
                (let latest = last candidates in
                 bind (read_text latest) (\<lambda>text.
                 bind (log INFO ''Manuscript word count: %d (from %s)''
                         [AInt (int (count_words text)), AStr (name latest)]) (\<lambda>_.
                 return (count_words text))))
              else return 0)
            else return 0) (\<lambda>wc.
      bind (log INFO ''Payload built: %d context section(s), %d manuscript words.''
              [AInt (int (length sections)), AInt (int wc)]) (\<lambda>_.
      return \<lparr>context_sections = sections, word_count = wc, config = cfg\<rparr>))))))))))"

subsection \<open>Main\<close>

text \<open>Step 3 of \<^verbatim>\<open>main\<close> (lines 292 to 294), the Edit Reconciler of the
  specification: detect the files edited today and, if there are any, commit them.\<close>

definition reconcile_edits :: "'g subprocess \<Rightarrow> path \<Rightarrow> ('g, unit) prog" where
  "reconcile_edits sp book_dir =
     bind (detect_human_edits book_dir) (\<lambda>edited_files.
     if edited_files \<noteq> [] then commit_human_edits sp book_dir edited_files
     else return ())"

definition main ::
  "'g subprocess \<Rightarrow> (string \<Rightarrow> error + yaml) \<Rightarrow> string \<Rightarrow> ('g, unit) prog" where
  "main sp safe_load repo_url =
     (let book_name = book_name_from_url repo_url;
          book_dir = path_div BOOKS_ROOT book_name
      in
      bind (log INFO (replicate 60 CHR ''='') []) (\<lambda>_.
      bind (log INFO ''Ink Gateway - nightly session starting'' []) (\<lambda>_.
      bind (log INFO ''Book: %s'' [AStr book_name]) (\<lambda>_.
      bind (log INFO ''Dir:  %s'' [APath book_dir]) (\<lambda>_.
      bind (log INFO (replicate 60 CHR ''='') []) (\<lambda>_.
      bind (ensure_repo sp repo_url book_dir) (\<lambda>_.
      bind (load_config safe_load book_dir) (\<lambda>cfg.
      bind (reconcile_edits sp book_dir) (\<lambda>_.
      bind (snapshot sp book_dir) (\<lambda>_.
      bind (branch_for_draft sp book_dir) (\<lambda>_.
      bind (build_payload book_dir cfg) (\<lambda>pl.
      bind (log INFO (replicate 60 CHR ''='') []) (\<lambda>_.
      bind (log INFO ''Phase 1 complete. Payload ready for AI generation (Phase 2).'' [])
        (\<lambda>_.
      bind (lift (dict_get cfg (YStr ''nightly_output_target''))) (\<lambda>target.
      bind (log INFO ''  Sections: %d | Manuscript words: %d | Nightly target: %d''
              [AInt (int (length (context_sections pl))), AInt (int (word_count pl)), AObj target])
        (\<lambda>_.
      log INFO (replicate 60 CHR ''='') []))))))))))))))))"

subsection \<open>Notions used to state the properties\<close>

text \<open>The state after one call of \<open>run\<close>: the world the process left, the call
  recorded, the command line logged and then the records \<open>ls\<close>; and the records
  \<open>run\<close> logs for a completed process.\<close>

definition ran :: "'g state \<Rightarrow> string list \<Rightarrow> path \<Rightarrow> 'g world \<Rightarrow> logrec list \<Rightarrow> 'g state" where
  "ran s cmd cwd w' ls =
     s\<lparr>world := w', spawned := spawned s @ [(cmd, cwd)],
       logged := logged s @ (INFO, ''$ %s'', [AStr (join '' '' cmd)]) # ls\<rparr>"

definition out_log :: "completed \<Rightarrow> logrec list" where
  "out_log r =
     (if strip (stdout r) \<noteq> [] then [(INFO, strip (stdout r), [])] else []) @
     (if returncode r \<noteq> 0 \<and> strip (stderr r) \<noteq> [] then [(ERROR, strip (stderr r), [])] else [])"

text \<open>
  What the tag commands of git are taken to do, for a function \<open>tags_of\<close> that reads
  the local tags off the world: \<^verbatim>\<open>git tag t\<close> fails with a message that holds
  \<^verbatim>\<open>already exists\<close> and changes no tag when \<open>t\<close> exists, and adds \<open>t\<close> when
  it does not exist and the command exits with zero; \<^verbatim>\<open>git push origin t\<close>
  changes no local tag.
\<close>

definition tag_contract :: "'g subprocess \<Rightarrow> path \<Rightarrow> ('g world \<Rightarrow> string list) \<Rightarrow> bool" where
  "tag_contract sp cwd tags_of \<longleftrightarrow>
     (\<forall>t w out w'. sp [''git'', ''tag'', t] cwd w = (out, w') \<longrightarrow>
        (t \<in> set (tags_of w) \<longrightarrow>
           tags_of w' = tags_of w \<and>
           (\<exists>r. out = Inr r \<and> returncode r \<noteq> 0 \<and> contains ''already exists'' (stderr r))) \<and>
        (t \<notin> set (tags_of w) \<longrightarrow>
           (\<forall>r. out = Inr r \<and> returncode r = 0 \<longrightarrow> tags_of w' = t # tags_of w))) \<and>
     (\<forall>t w out w'. sp [''git'', ''push'', ''origin'', t] cwd w = (out, w') \<longrightarrow>
        tags_of w' = tags_of w)"


text \<open>The files \<open>detect_human_edits\<close> returns: the regular files below the book
  directory, outside any directory named \<^verbatim>\<open>.git\<close>, whose modification date is
  today. The error \<open>run\<close> raises for a completed process, and the three commands of
  \<open>commit_human_edits\<close> in their order.\<close>

definition edited_today :: "'g world \<Rightarrow> path \<Rightarrow> path list" where
  "edited_today w bd =
     filter (\<lambda>p. ''.git'' \<notin> set p \<and> is_file (files w) p \<and> mtime_date (files w) p = Some (clock w))
       (rglob (files w) bd ''*'')"

definition failure :: "completed \<Rightarrow> string list \<Rightarrow> error" where
  "failure r cmd =
     RuntimeError (''Command failed (exit '' @ str_int (returncode r) @ ''): '' @ join '' '' cmd)"

definition commit_cmds :: "string list list" where
  "commit_cmds =
     [[''git'', ''add'', ''.''],
      [''git'', ''commit'', ''-m'', ''chore: human updates''],
      [''git'', ''push'', ''origin'', ''main'']]"





text \<open>
  Notions for the payload: the text of a readable file (empty for anything else), the
  context section of a file (its path relative to the book directory, written with
  slashes, and its text), and the names in a directory that match a pattern, in the
  order the directory lists them.
\<close>

definition text_of :: "node \<Rightarrow> path \<Rightarrow> string" where
  "text_of fs p = (case resolve fs p of Some (File d (Some t)) \<Rightarrow> t | _ \<Rightarrow> [])"

definition section_of :: "node \<Rightarrow> path \<Rightarrow> path \<Rightarrow> context_section" where
  "section_of fs bd q = \<lparr>path = path_str (drop (length bd) q), content = text_of fs q\<rparr>"

definition matching :: "string \<Rightarrow> node \<Rightarrow> path \<Rightarrow> string list" where
  "matching pat fs dir =
     (case resolve fs dir of Some (Dir es) \<Rightarrow> filter (fnmatch pat) (map fst es) | _ \<Rightarrow> [])"

subsection \<open>An example environment\<close>

text \<open>
  A small git, used to run the program on concrete inputs: the repository holds the
  checked-out branch, the local and the remote branches (each with its commits, newest
  first), the local and the remote tags, and whether the working tree differs from the
  last commit. It answers the commands the program issues; \<open>commit\<close> fails when
  nothing has changed, \<open>tag\<close> fails when the tag exists, a push of a name that is neither a tag nor
  a branch fails, \<open>checkout\<close> of a branch that exists only on the remote creates it,
  \<open>rebase\<close> puts the commits of the current branch that the upstream lacks on top of
  the upstream's.
\<close>

record repo =
  head :: string
  branches :: "(string \<times> nat list) list"
  remote_branches :: "(string \<times> nat list) list"
  tags :: "string list"
  remote_tags :: "string list"
  changed :: bool

definition ok :: "string \<Rightarrow> completed" where
  "ok out = \<lparr>returncode = 0, stdout = out, stderr = []\<rparr>"

definition failed :: "int \<Rightarrow> string \<Rightarrow> completed" where
  "failed rc err = \<lparr>returncode = rc, stdout = [], stderr = err\<rparr>"

definition commits_of :: "repo \<Rightarrow> string \<Rightarrow> nat list" where
  "commits_of g b = (case map_of (branches g) b of None \<Rightarrow> [] | Some cs \<Rightarrow> cs)"

definition git :: "string list \<Rightarrow> repo \<Rightarrow> completed \<times> repo" where
  "git cmd g =
     (if length cmd = 3 \<and> take 2 cmd = [''git'', ''tag''] then
        (if cmd ! 2 \<in> set (tags g) then
           (failed 128 (''fatal: tag '' @ cmd ! 2 @ '' already exists''), g)
         else (ok [], g\<lparr>tags := cmd ! 2 # tags g\<rparr>))
      else if length cmd = 4 \<and> take 3 cmd = [''git'', ''push'', ''origin''] then
        (if cmd ! 3 \<in> set (tags g) then
           (ok [], g\<lparr>remote_tags := List.insert (cmd ! 3) (remote_tags g)\<rparr>)
         else (case map_of (branches g) (cmd ! 3) of
                 Some cs \<Rightarrow>
                   (ok [], g\<lparr>remote_branches := AList.update (cmd ! 3) cs (remote_branches g)\<rparr>)
               | None \<Rightarrow> (failed 1 ''error: src refspec does not match any'', g)))
      else if cmd = [''git'', ''push'', ''-u'', ''origin'', ''draft''] then
        (case map_of (branches g) ''draft'' of
           Some cs \<Rightarrow>
             (ok [], g\<lparr>remote_branches := AList.update ''draft'' cs (remote_branches g)\<rparr>)
         | None \<Rightarrow> (failed 1 ''error: src refspec draft does not match any'', g))
      else if cmd = [''git'', ''branch'', ''--list'', ''draft''] then
        (ok (if map_of (branches g) ''draft'' \<noteq> None then ''  draft'' @ [CHR 0x0A] else []), g)
      else if cmd = [''git'', ''ls-remote'', ''--heads'', ''origin'', ''draft''] then
        (ok (if map_of (remote_branches g) ''draft'' \<noteq> None
             then ''5f2c refs/heads/draft'' @ [CHR 0x0A] else []), g)
      else if cmd = [''git'', ''checkout'', ''-b'', ''draft'', ''main''] then
        (case map_of (branches g) ''main'' of
           None \<Rightarrow> (failed 128 ''fatal: not a valid object name: main'', g)
         | Some cs \<Rightarrow>
             if map_of (branches g) ''draft'' \<noteq> None then
               (failed 128 ''fatal: a branch named draft already exists'', g)
             else (ok [], g\<lparr>head := ''draft'', branches := branches g @ [(''draft'', cs)]\<rparr>))
      else if cmd = [''git'', ''checkout'', ''draft''] then
        (if map_of (branches g) ''draft'' \<noteq> None then (ok [], g\<lparr>head := ''draft''\<rparr>)
         else (case map_of (remote_branches g) ''draft'' of
                 Some cs \<Rightarrow>
                   (ok [], g\<lparr>head := ''draft'', branches := branches g @ [(''draft'', cs)]\<rparr>)
               | None \<Rightarrow> (failed 1 ''error: pathspec draft did not match'', g)))
      else if cmd = [''git'', ''rebase'', ''main''] then
        (case map_of (branches g) ''main'' of
           None \<Rightarrow> (failed 128 ''fatal: invalid upstream main'', g)
         | Some ms \<Rightarrow>
             (ok [], g\<lparr>branches :=
                AList.update (head g)
                  (filter (\<lambda>c. c \<notin> set ms) (commits_of g (head g)) @ ms) (branches g)\<rparr>))
      else if cmd = [''git'', ''add'', ''.''] then (ok [], g)
      else if length cmd = 4 \<and> take 3 cmd = [''git'', ''commit'', ''-m''] then
        (if changed g then
           (ok [], g\<lparr>branches :=
              AList.update (head g)
                (Suc (fold max (concat (map snd (branches g))) 0) # commits_of g (head g))
                (branches g), changed := False\<rparr>)
         else
           (\<lparr>returncode = 1, stdout = ''nothing to commit, working tree clean'',
             stderr = []\<rparr>, g))
      else (failed 1 ''git: not a command of this example'', g))"

definition git_run :: "repo subprocess" where
  "git_run cmd cwd w = (case git cmd (ext w) of (r, g') \<Rightarrow> (Inr r, w\<lparr>ext := g'\<rparr>))"


text \<open>A project: the book \<^verbatim>\<open>my-novel\<close> under the books root, with two files of
  global material listed out of order, chapter material in two directories whose names
  differ after a common prefix, a review draft, two manuscripts, and git's own files.
  One file was edited on 2026-03-07, the others the day before. And a smaller one: a
  repository with one file, touched on 2026-03-07.\<close>

definition day1 :: date where
  "day1 = \<lparr>year = 2026, month = 3, day = 6\<rparr>"

definition day2 :: date where
  "day2 = \<lparr>year = 2026, month = 3, day = 7\<rparr>"

definition project :: node where
  "project = Dir
     [(''.git'', Dir [(''HEAD'', File day2 (Some ''ref: refs/heads/main''))]),
      (''Global Material'', Dir
         [(''b.md'', File day1 (Some ''beta'')),
          (''Config.yml'', File day1 (Some ''{model: m1, colour: red, chapter_count: 12}'')),
          (''a.md'', File day2 (Some ''alpha one''))]),
      (''Chapters material'', Dir
         [(''ch1-extra'', Dir [(''a.md'', File day1 (Some ''extra''))]),
          (''ch1'', Dir [(''z.md'', File day1 (Some ''first chapter''))])]),
      (''Review'', Dir [(''current.md'', File day1 (Some ''draft text''))]),
      (''Current version'', Dir
         [(''Full_Book_v2.md'', File day1 (Some ''one two three'')),
          (''Full_Book_v1.md'', File day1 (Some ''one two'')),
          (''notes.txt'', File day1 (Some ''n''))])]"

definition touched :: node where
  "touched = Dir
     [(''.git'', Dir [(''HEAD'', File day2 (Some ''ref: refs/heads/main''))]),
      (''notes.md'', File day2 (Some ''n''))]"

definition disk :: "node \<Rightarrow> node" where
  "disk bk = Dir [(''data'', Dir [(''ink-gateway'', Dir [(''books'', Dir [(''my-novel'', bk)])])])]"

definition book :: path where
  "book = [''/'', ''data'', ''ink-gateway'', ''books'', ''my-novel'']"

definition repo0 :: repo where
  "repo0 = \<lparr>head = ''main'', branches = [(''main'', [11, 10])],
            remote_branches = [(''main'', [11, 10])], tags = [], remote_tags = [],
            changed = False\<rparr>"


definition start :: "node \<Rightarrow> date \<Rightarrow> repo \<Rightarrow> repo state" where
  "start bk d g = \<lparr>world = \<lparr>files = disk bk, clock = d, ext = g\<rparr>, logged = [], spawned = []\<rparr>"

text \<open>A loader that knows three documents: the empty one, a mapping in flow style
  with two recognised keys and one that is not, and a list; anything else does not
  parse.\<close>

definition example_load :: "string \<Rightarrow> error + yaml" where
  "example_load t =
     (if t = [] then Inr YNull
      else if t = ''{model: m1, colour: red, chapter_count: 12}'' then
        Inr (YMap [(YStr ''model'', YStr ''m1''), (YStr ''colour'', YStr ''red''),
                   (YStr ''chapter_count'', YInt 12)])
      else if t = ''[1, 2]'' then Inr (YSeq [YInt 1, YInt 2])
      else Inl (YAMLError ''could not parse''))"

section \<open>Properties\<close>

subsection \<open>The name of the book\<close>

lemma split_from_nonempty: "split_from sep cur s \<noteq> []"
  by (induction s arbitrary: cur) auto

lemma split_nonempty: "split sep s \<noteq> []"
  by (simp add: split_def split_from_nonempty)

lemma dropWhile_replicate_append:
  "P x \<Longrightarrow> dropWhile P (replicate n x @ ys) = dropWhile P ys"
  by (induction n) auto

lemma rstrip_trailing: "rstrip ''/'' (u @ replicate n CHR ''/'') = rstrip ''/'' u"
  by (simp add: rstrip_def dropWhile_replicate_append)

text \<open>
  Claim C9. For every URL \<open>u\<close> and every number \<open>n\<close> of slashes appended to it, the
  book name derived from the longer URL is the one derived from \<open>u\<close>, and so is the
  working directory \<^verbatim>\<open>BOOKS_ROOT / book_name\<close> that \<^verbatim>\<open>main\<close> builds from it.
  (\<^const>\<open>split\<close> never gives the empty list, \<open>split_nonempty\<close>, so the last piece
  exists.)
\<close>

theorem book_name_trailing_slashes:
  "book_name_from_url (u @ replicate n CHR ''/'') = book_name_from_url u \<and>
   path_div BOOKS_ROOT (book_name_from_url (u @ replicate n CHR ''/'')) =
     path_div BOOKS_ROOT (book_name_from_url u)"
  by (simp add: book_name_from_url_def rstrip_trailing)

subsection \<open>The command runner\<close>

text \<open>
  Claim C7. Whatever the process does, \<open>run\<close> first logs the command line, and calls
  \<^verbatim>\<open>subprocess.run\<close> once. If that call raises, the exception goes up. Otherwise it
  logs the standard output (stripped of surrounding whitespace, when anything is left),
  on a non-zero exit code logs the standard error (likewise) and, unless
  \<open>check\<close> is false, raises a \<open>RuntimeError\<close> whose message holds the exit code and
  the command line; with \<open>check\<close> false, or on exit code zero, it returns the
  completed process.
\<close>

theorem run_spec:
  assumes "sp cmd cwd (world s) = (out, w')"
  shows "run sp cmd cwd check s =
     (case out of
        Inl e \<Rightarrow>
          (Inl e, s\<lparr>world := w', spawned := spawned s @ [(cmd, cwd)],
                     logged := logged s @ [(INFO, ''$ %s'', [AStr (join '' '' cmd)])]\<rparr>)
      | Inr r \<Rightarrow>
          (if returncode r \<noteq> 0 \<and> check
           then Inl (RuntimeError (''Command failed (exit '' @ str_int (returncode r) @ ''): ''
                                    @ join '' '' cmd))
           else Inr r,
           s\<lparr>world := w', spawned := spawned s @ [(cmd, cwd)],
             logged := logged s @ [(INFO, ''$ %s'', [AStr (join '' '' cmd)])]
               @ (if strip (stdout r) \<noteq> [] then [(INFO, strip (stdout r), [])] else [])
               @ (if returncode r \<noteq> 0 \<and> strip (stderr r) \<noteq> []
                  then [(ERROR, strip (stderr r), [])] else [])\<rparr>))"
  using assms
  by (cases out) (simp_all add: run_def bind_def log_def subprocess_run_def return_def raise_def)

lemma git_tag_exists:
  "git_run [''git'', ''tag'', ''v1''] book (world (start project day2 (repo0\<lparr>tags := [''v1'']\<rparr>)))
     = (Inr (failed 128 ''fatal: tag v1 already exists''),
        world (start project day2 (repo0\<lparr>tags := [''v1'']\<rparr>)))"
  by (simp add: git_run_def git_def start_def repo0_def)

theorem run_spec_witness:
  "run git_run [''git'', ''tag'', ''v1''] book True (start project day2 (repo0\<lparr>tags := [''v1'']\<rparr>))
     = (Inl (RuntimeError ''Command failed (exit 128): git tag v1''),
        (start project day2 (repo0\<lparr>tags := [''v1'']\<rparr>))
          \<lparr>logged := [(INFO, ''$ %s'', [AStr ''git tag v1'']),
                      (ERROR, ''fatal: tag v1 already exists'', [])],
           spawned := [([''git'', ''tag'', ''v1''], book)]\<rparr>)"
  using run_spec [where sp = git_run and s = "start project day2 (repo0\<lparr>tags := [''v1'']\<rparr>)"
      and check = True, OF git_tag_exists]
  by (simp add: failed_def strip_def isspace_def str_int_def start_def)

subsection \<open>The configuration loader\<close>

lemmas prog_defs = bind_def return_def raise_def lift_def gets_def log_def

lemma dict_update_Cons:
  "dict_update d (kv # kvs) = dict_update (AList.update (fst kv) (snd kv) d) kvs"
  by (simp add: dict_update_def)

lemma dict_update_Nil: "dict_update d [] = d"
  by (simp add: dict_update_def)

lemma keys_dict_update:
  "fst ` set (dict_update d kvs) = fst ` set d \<union> fst ` set kvs"
proof (induction kvs arbitrary: d)
  case Nil
  show ?case by (simp add: dict_update_Nil)
next
  case (Cons kv kvs)
  have "fst ` set (AList.update (fst kv) (snd kv) d) = insert (fst kv) (fst ` set d)"
    using update_keys [of "fst kv" "snd kv" d]
    by (metis (no_types, lifting) insert_absorb list.set_map list.simps(15) rotate1.simps(2)
        set_rotate1)
  then show ?case
    unfolding dict_update_Cons Cons.IH by auto
qed

lemma dict_update_same_keys:
  "fst ` set kvs \<subseteq> fst ` set d \<Longrightarrow> map fst (dict_update d kvs) = map fst d"
proof (induction kvs arbitrary: d)
  case Nil
  show ?case by (simp add: dict_update_Nil)
next
  case (Cons kv kvs)
  from Cons.prems have k: "fst kv \<in> fst ` set d" by simp
  then have same: "map fst (AList.update (fst kv) (snd kv) d) = map fst d"
    by (simp add: update_keys)
  then have "fst ` set (AList.update (fst kv) (snd kv) d) = fst ` set d"
    by (metis list.set_map)
  with Cons.prems have "fst ` set kvs \<subseteq> fst ` set (AList.update (fst kv) (snd kv) d)"
    by simp
  from Cons.IH [OF this] same show ?case by (simp add: dict_update_Cons)
qed

lemma distinct_dict_update:
  "distinct (map fst d) \<Longrightarrow> distinct (map fst (dict_update d kvs))"
proof (induction kvs arbitrary: d)
  case Nil
  then show ?case by (simp add: dict_update_Nil)
next
  case (Cons kv kvs)
  then show ?case by (simp add: dict_update_Cons distinct_update)
qed

lemma map_of_dict_update:
  "map_of (dict_update d kvs) = map_of d ++ map_of (rev kvs)"
proof (induction kvs arbitrary: d)
  case Nil
  show ?case by (simp add: dict_update_Nil)
next
  case (Cons kv kvs)
  show ?case
    by (rule ext)
      (simp add: dict_update_Cons Cons.IH update_conv' map_add_def fun_upd_def
         split: option.splits)
qed

lemma map_of_rev_distinct:
  "distinct (map fst xs) \<Longrightarrow> map_of (rev xs) = map_of xs"
proof (induction xs)
  case Nil
  show ?case by simp
next
  case (Cons kv xs)
  then have ih: "map_of (rev xs) = map_of xs" and k: "map_of xs (fst kv) = None"
    by (auto simp: map_of_eq_None_iff)
  show ?case
    by (rule ext) (cases kv, simp add: map_add_def ih k split: option.splits, use k in auto)
qed


lemma map_of_dict_of:
  "distinct (map fst kvs) \<Longrightarrow> map_of (dict_of kvs) = map_of kvs"
  by (simp add: dict_of_def map_of_dict_update map_of_rev_distinct)

lemma map_of_rev_dict_of:
  "distinct (map fst kvs) \<Longrightarrow> map_of (rev (dict_of kvs)) = map_of kvs"
proof -
  assume d: "distinct (map fst kvs)"
  have "distinct (map fst (dict_of kvs))"
    unfolding dict_of_def by (rule distinct_dict_update) simp
  then have "map_of (rev (dict_of kvs)) = map_of (dict_of kvs)" by (rule map_of_rev_distinct)
  with d show ?thesis by (simp add: map_of_dict_of)
qed

lemma keys_dict_of: "fst ` set (dict_of kvs) = fst ` set kvs"
  by (simp add: dict_of_def keys_dict_update)


lemma merged_keys:
  "map fst (dict_update DEFAULTS (dict_of (filter (\<lambda>kv. fst kv \<in> set (map fst DEFAULTS)) ov)))
     = map fst DEFAULTS"
  by (rule dict_update_same_keys) (auto simp: keys_dict_of)

lemma merged_lookup:
  assumes "distinct (map fst ov)"
  shows "map_of (dict_update DEFAULTS
            (dict_of (filter (\<lambda>kv. fst kv \<in> set (map fst DEFAULTS)) ov))) k =
     (if k \<in> set (map fst DEFAULTS)
      then (case map_of ov k of Some v \<Rightarrow> Some v | None \<Rightarrow> map_of DEFAULTS k)
      else None)"
proof -
  let ?F = "filter (\<lambda>kv. fst kv \<in> set (map fst DEFAULTS)) ov"
  have dF: "distinct (map fst ?F)" using assms by (rule distinct_map_filter)
  have "map_of (dict_update DEFAULTS (dict_of ?F)) = map_of DEFAULTS ++ map_of ?F"
    by (simp only: map_of_dict_update map_of_rev_dict_of [OF dF])
  also have "map_of ?F = map_of ov |` {k. k \<in> set (map fst DEFAULTS)}"
    by (rule map_of_filter)
  finally have eq: "map_of (dict_update DEFAULTS (dict_of ?F)) =
      map_of DEFAULTS ++ (map_of ov |` {k. k \<in> set (map fst DEFAULTS)})" .
  have none: "k \<notin> set (map fst DEFAULTS) \<Longrightarrow> map_of DEFAULTS k = None"
    by (simp add: map_of_eq_None_iff)
  show ?thesis
    unfolding eq using none
    by (cases "k \<in> set (map fst DEFAULTS)")
       (simp_all add: map_add_def restrict_map_def split: option.splits del: set_map)
qed

lemma config_path_eq:
  "path_div (path_div book_dir ''Global Material'') ''Config.yml''
     = book_dir @ [''Global Material'', ''Config.yml'']"
  by (simp add: path_div_def)

lemma load_config_present:
  assumes "resolve (files (world s)) (book_dir @ [''Global Material'', ''Config.yml''])
             = Some (File d (Some txt))"
    and "safe_load txt = Inr doc"
    and "items (if truthy doc then doc else YMap []) = Inr kvs"
  shows "load_config safe_load book_dir s =
     (Inr (dict_update DEFAULTS
             (dict_of (filter (\<lambda>kv. fst kv \<in> set (map fst DEFAULTS)) kvs))),
      s\<lparr>logged := logged s @
          [(INFO, ''Config loaded from %s'', [APath (book_dir @ [''Global Material'', ''Config.yml''])]),
           (INFO, ''Config: %s'',
            [AObj (YMap (dict_update DEFAULTS
               (dict_of (filter (\<lambda>kv. fst kv \<in> set (map fst DEFAULTS)) kvs))))])]\<rparr>)"
  using assms
  by (simp add: load_config_def config_path_eq Let_def prog_defs read_text_def exists_path_def
      del: set_map)

lemma load_config_absent:
  assumes "\<not> exists_path (files (world s)) (book_dir @ [''Global Material'', ''Config.yml''])"
  shows "load_config safe_load book_dir s =
     (Inr DEFAULTS,
      s\<lparr>logged := logged s @
          [(WARNING, ''Config.yml not found - using defaults.'', []),
           (INFO, ''Config: %s'', [AObj (YMap DEFAULTS)])]\<rparr>)"
  using assms
  by (simp add: load_config_def config_path_eq Let_def prog_defs)

text \<open>
  Claim C3. When the override file exists, is readable and parses to a mapping \<open>ov\<close>
  (a dictionary, so its keys are distinct; they may be any objects), \<open>load_config\<close>
  returns a configuration whose keys are exactly the keys of \<open>DEFAULTS\<close>, in their
  order; a recognised key has the override's value if the override holds it and its
  default otherwise; a key that \<open>DEFAULTS\<close> lacks is not in the configuration.
\<close>

theorem load_config_allow_list:
  assumes "resolve (files (world s)) (book_dir @ [''Global Material'', ''Config.yml''])
             = Some (File d (Some txt))"
    and "safe_load txt = Inr (YMap ov)"
    and "distinct (map fst ov)"
  shows "\<exists>cfg. fst (load_config safe_load book_dir s) = Inr cfg \<and>
           map fst cfg = map fst DEFAULTS \<and>
           (\<forall>k v. map_of DEFAULTS k = Some v \<longrightarrow>
              map_of cfg k = Some (case map_of ov k of Some v' \<Rightarrow> v' | None \<Rightarrow> v)) \<and>
           (\<forall>k. map_of DEFAULTS k = None \<longrightarrow> map_of cfg k = None)"
proof -
  have it: "items (if truthy (YMap ov) then YMap ov else YMap []) = Inr ov"
    by (cases ov) (simp_all add: items_def)
  let ?cfg = "dict_update DEFAULTS (dict_of (filter (\<lambda>kv. fst kv \<in> set (map fst DEFAULTS)) ov))"
  have r: "fst (load_config safe_load book_dir s) = Inr ?cfg"
    using load_config_present [where safe_load = safe_load, OF assms(1) assms(2) it] by simp
  have k: "map fst ?cfg = map fst DEFAULTS" by (rule merged_keys)
  have l: "\<And>k. map_of ?cfg k =
     (if k \<in> set (map fst DEFAULTS)
      then (case map_of ov k of Some v \<Rightarrow> Some v | None \<Rightarrow> map_of DEFAULTS k)
      else None)"
    by (rule merged_lookup [OF assms(3)])
  have a: "\<forall>k v. map_of DEFAULTS k = Some v \<longrightarrow>
              map_of ?cfg k = Some (case map_of ov k of Some v' \<Rightarrow> v' | None \<Rightarrow> v)"
  proof (intro allI impI)
    fix k v assume "map_of DEFAULTS k = Some v"
    moreover from this have "k \<in> set (map fst DEFAULTS)"
      by (metis map_of_eq_None_iff option.distinct(1) set_map)
    ultimately show "map_of ?cfg k = Some (case map_of ov k of Some v' \<Rightarrow> v' | None \<Rightarrow> v)"
      unfolding l by (simp split: option.splits)
  qed
  have b: "\<forall>k. map_of DEFAULTS k = None \<longrightarrow> map_of ?cfg k = None"
  proof (intro allI impI)
    fix k assume "map_of DEFAULTS k = None"
    then have "k \<notin> set (map fst DEFAULTS)" by (simp add: map_of_eq_None_iff)
    then show "map_of ?cfg k = None" unfolding l by simp
  qed
  from r k a b show ?thesis by blast
qed

lemma project_config_file:
  "resolve (files (world (start project day2 repo0))) (book @ [''Global Material'', ''Config.yml''])
     = Some (File day1 (Some ''{model: m1, colour: red, chapter_count: 12}''))"
  by (simp add: resolve_def start_def disk_def project_def book_def)

lemma example_load_mapping:
  "example_load ''{model: m1, colour: red, chapter_count: 12}'' =
     Inr (YMap [(YStr ''model'', YStr ''m1''), (YStr ''colour'', YStr ''red''),
                (YStr ''chapter_count'', YInt 12)])"
  by (simp add: example_load_def)

theorem load_config_allow_list_witness:
  "\<exists>cfg. fst (load_config example_load book (start project day2 repo0)) = Inr cfg \<and>
         map fst cfg = map fst DEFAULTS \<and>
         map_of cfg (YStr ''model'') = Some (YStr ''m1'') \<and>
         map_of cfg (YStr ''chapter_count'') = Some (YInt 12) \<and>
         map_of cfg (YStr ''target_length'') = Some (YInt 90000) \<and>
         map_of cfg (YStr ''colour'') = None"
proof -
  have d: "distinct (map fst [(YStr ''model'', YStr ''m1''), (YStr ''colour'', YStr ''red''),
                (YStr ''chapter_count'', YInt 12)])" by simp
  from load_config_allow_list [where safe_load = example_load,
      OF project_config_file example_load_mapping d]
  obtain cfg where c: "fst (load_config example_load book (start project day2 repo0)) = Inr cfg"
      "map fst cfg = map fst DEFAULTS"
      "\<forall>k v. map_of DEFAULTS k = Some v \<longrightarrow>
         map_of cfg k = Some (case map_of [(YStr ''model'', YStr ''m1''), (YStr ''colour'', YStr ''red''),
                (YStr ''chapter_count'', YInt 12)] k of Some v' \<Rightarrow> v' | None \<Rightarrow> v)"
      "\<forall>k. map_of DEFAULTS k = None \<longrightarrow> map_of cfg k = None"
    by blast
  have "map_of cfg (YStr ''model'') = Some (YStr ''m1'')"
    using c(3) [rule_format, of "YStr ''model''" "YStr ''claude-opus-4-6''"]
    by (simp add: DEFAULTS_def)
  moreover have "map_of cfg (YStr ''chapter_count'') = Some (YInt 12)"
    using c(3) [rule_format, of "YStr ''chapter_count''" "YInt 30"]
    by (simp add: DEFAULTS_def)
  moreover have "map_of cfg (YStr ''target_length'') = Some (YInt 90000)"
    using c(3) [rule_format, of "YStr ''target_length''" "YInt 90000"]
    by (simp add: DEFAULTS_def)
  moreover have "map_of cfg (YStr ''colour'') = None"
    using c(4) [rule_format, of "YStr ''colour''"] by (simp add: DEFAULTS_def)
  ultimately show ?thesis using c(1) c(2) by blast
qed

text \<open>
  Claim C10. When the override file exists but parses to an empty document (\<open>YNull\<close>,
  Python's \<open>None\<close>; more generally to any object that is false, which
  \<^verbatim>\<open>or {}\<close> replaces by the empty mapping), \<open>load_config\<close> raises nothing and
  returns \<open>DEFAULTS\<close>, which is what it returns when the file is absent.
\<close>

theorem load_config_empty_document:
  assumes "resolve (files (world s)) (book_dir @ [''Global Material'', ''Config.yml''])
             = Some (File d (Some txt))"
    and "safe_load txt = Inr doc"
    and "\<not> truthy doc"
    and "\<not> exists_path (files (world s0)) (book_dir @ [''Global Material'', ''Config.yml''])"
  shows "fst (load_config safe_load book_dir s) = Inr DEFAULTS \<and>
         fst (load_config safe_load book_dir s0) = fst (load_config safe_load book_dir s)"
proof -
  have it: "items (if truthy doc then doc else YMap []) = Inr []"
    using assms(3) by (simp add: items_def)
  have "fst (load_config safe_load book_dir s) = Inr DEFAULTS"
    using load_config_present [where safe_load = safe_load, OF assms(1) assms(2) it]
    by (simp add: dict_of_def dict_update_def)
  moreover have "fst (load_config safe_load book_dir s0) = Inr DEFAULTS"
    using load_config_absent [OF assms(4)] by simp
  ultimately show ?thesis by simp
qed


theorem load_config_empty_document_witness:
  "fst (load_config example_load book
          (start (Dir [(''Global Material'', Dir [(''Config.yml'', File day1 (Some []))])])
             day2 repo0)) = Inr DEFAULTS \<and>
   fst (load_config example_load book (start (Dir []) day2 repo0)) = Inr DEFAULTS"
proof -
  have p: "resolve (files (world (start (Dir [(''Global Material'',
              Dir [(''Config.yml'', File day1 (Some []))])]) day2 repo0)))
             (book @ [''Global Material'', ''Config.yml'']) = Some (File day1 (Some []))"
    by (simp add: resolve_def start_def disk_def book_def)
  have l: "example_load [] = Inr YNull" by (simp add: example_load_def)
  have t: "\<not> truthy YNull" by simp
  have a: "\<not> exists_path (files (world (start (Dir []) day2 repo0)))
             (book @ [''Global Material'', ''Config.yml''])"
    by (simp add: exists_path_def resolve_def start_def disk_def book_def)
  from load_config_empty_document [where safe_load = example_load, OF p l t a]
  show ?thesis by simp
qed


subsection \<open>The snapshotter\<close>

lemma run_eq:
  "run sp cmd cwd check s =
     (case sp cmd cwd (world s) of
        (Inl e, w') \<Rightarrow> (Inl e, ran s cmd cwd w' [])
      | (Inr r, w') \<Rightarrow>
          (if returncode r \<noteq> 0 \<and> check
           then Inl (RuntimeError (''Command failed (exit '' @ str_int (returncode r) @ ''): ''
                                    @ join '' '' cmd))
           else Inr r,
           ran s cmd cwd w' (out_log r)))"
  by (simp add: run_def prog_defs subprocess_run_def ran_def out_log_def
      split: prod.splits sum.splits)

lemma ran_simps [simp]:
  "world (ran s cmd cwd w' ls) = w'"
  "spawned (ran s cmd cwd w' ls) = spawned s @ [(cmd, cwd)]"
  "logged (ran s cmd cwd w' ls) = logged s @ (INFO, ''$ %s'', [AStr (join '' '' cmd)]) # ls"
  by (simp_all add: ran_def)

lemma snapshot_eq:
  "snapshot sp bd s =
     (let t = ''pre-nightly-'' @ isoformat (clock (world s)) in
      case sp [''git'', ''tag'', t] bd (world s) of
        (Inl e, w1) \<Rightarrow> (Inl e, ran s [''git'', ''tag'', t] bd w1 [])
      | (Inr r, w1) \<Rightarrow>
          (let s1 = ran s [''git'', ''tag'', t] bd w1 (out_log r) in
           if returncode r \<noteq> 0 \<and> contains ''already exists'' (stderr r) then
             (Inr t, s1\<lparr>logged := logged s1 @
                 [(WARNING, ''Tag %s already exists - skipping.'', [AStr t])]\<rparr>)
           else
             (case sp [''git'', ''push'', ''origin'', t] bd w1 of
                (Inl e, w2) \<Rightarrow> (Inl e, ran s1 [''git'', ''push'', ''origin'', t] bd w2 [])
              | (Inr r2, w2) \<Rightarrow>
                  (let s2 = ran s1 [''git'', ''push'', ''origin'', t] bd w2 (out_log r2) in
                   if returncode r2 \<noteq> 0 then
                     (Inl (RuntimeError (''Command failed (exit '' @ str_int (returncode r2)
                            @ ''): '' @ join '' '' [''git'', ''push'', ''origin'', t])), s2)
                   else
                     (Inr t, s2\<lparr>logged := logged s2 @
                        [(INFO, ''Snapshot tag created: %s'', [AStr t])]\<rparr>)))))"
  by (simp add: snapshot_def run_eq prog_defs Let_def split: prod.splits sum.splits)


lemma count_in_distinct:
  "distinct xs \<Longrightarrow> x \<in> set xs \<Longrightarrow> length (filter (\<lambda>t. t = x) xs) = 1"
proof (induction xs)
  case Nil
  then show ?case by simp
next
  case (Cons a xs)
  show ?case
  proof (cases "a = x")
    case True
    with Cons.prems have "x \<notin> set xs" by simp
    then have "filter (\<lambda>t. t = x) xs = []" by (auto simp: filter_empty_conv)
    with True show ?thesis by simp
  next
    case False
    with Cons show ?thesis by simp
  qed
qed

lemma snapshot_returns_tag:
  "snapshot sp bd s = (Inr t, s') \<Longrightarrow> t = ''pre-nightly-'' @ isoformat (clock (world s))"
  by (auto simp: snapshot_eq Let_def split: prod.splits sum.splits if_splits)

lemma snapshot_first:
  assumes c: "tag_contract sp bd tags_of"
    and d: "distinct (tags_of (world s))"
    and t: "sp [''git'', ''tag'', ''pre-nightly-'' @ isoformat (clock (world s))] bd (world s)
              = (Inr r, w1)"
    and h: "returncode r = 0 \<or> ''pre-nightly-'' @ isoformat (clock (world s)) \<in> set (tags_of (world s))"
    and run: "snapshot sp bd s = (res, s')"
  shows "''pre-nightly-'' @ isoformat (clock (world s)) \<in> set (tags_of (world s')) \<and>
         distinct (tags_of (world s'))"
proof -
  let ?t = "''pre-nightly-'' @ isoformat (clock (world s))"
  from c t have old: "?t \<in> set (tags_of (world s)) \<Longrightarrow>
      tags_of w1 = tags_of (world s) \<and> returncode r \<noteq> 0 \<and> contains ''already exists'' (stderr r)"
    unfolding tag_contract_def by blast
  from c t have new: "?t \<notin> set (tags_of (world s)) \<Longrightarrow> returncode r = 0 \<Longrightarrow>
      tags_of w1 = ?t # tags_of (world s)"
    unfolding tag_contract_def by blast
  from c have push: "\<And>w out w'. sp [''git'', ''push'', ''origin'', ?t] bd w = (out, w') \<Longrightarrow>
      tags_of w' = tags_of w"
    unfolding tag_contract_def by blast
  have w1: "?t \<in> set (tags_of w1) \<and> distinct (tags_of w1)"
  proof (cases "?t \<in> set (tags_of (world s))")
    case True
    with old d show ?thesis by simp
  next
    case False
    with h new d show ?thesis by simp
  qed
  show ?thesis
  proof (cases "returncode r \<noteq> 0 \<and> contains ''already exists'' (stderr r)")
    case True
    with run t have "world s' = w1" by (auto simp: snapshot_eq Let_def)
    with w1 show ?thesis by simp
  next
    case False
    obtain out w2 where p: "sp [''git'', ''push'', ''origin'', ?t] bd w1 = (out, w2)"
      by (cases "sp [''git'', ''push'', ''origin'', ?t] bd w1")
    with run t False have "world s' = w2"
      by (auto simp: snapshot_eq Let_def split: sum.splits if_splits)
    with push [OF p] w1 show ?thesis by simp
  qed
qed

lemma snapshot_again:
  assumes c: "tag_contract sp bd tags_of"
    and e: "''pre-nightly-'' @ isoformat (clock (world s)) \<in> set (tags_of (world s))"
  shows "\<exists>s'. snapshot sp bd s = (Inr (''pre-nightly-'' @ isoformat (clock (world s))), s') \<and>
           tags_of (world s') = tags_of (world s) \<and>
           spawned s' = spawned s @
             [([''git'', ''tag'', ''pre-nightly-'' @ isoformat (clock (world s))], bd)] \<and>
           last (logged s') = (WARNING, ''Tag %s already exists - skipping.'',
             [AStr (''pre-nightly-'' @ isoformat (clock (world s)))])"
proof -
  let ?t = "''pre-nightly-'' @ isoformat (clock (world s))"
  obtain out w1 where t: "sp [''git'', ''tag'', ?t] bd (world s) = (out, w1)"
    by (cases "sp [''git'', ''tag'', ?t] bd (world s)")
  with c e obtain r where r: "out = Inr r" "returncode r \<noteq> 0"
      "contains ''already exists'' (stderr r)" "tags_of w1 = tags_of (world s)"
    unfolding tag_contract_def by blast
  with t show ?thesis by (simp add: snapshot_eq Let_def)
qed

text \<open>
  Claim C2. Two runs of \<open>snapshot\<close> on the same calendar date, the second starting
  where the first ended, with a git that meets \<open>tag_contract\<close> and tags that are
  distinct at the start. If the tag command of the first run exited with zero, or the
  tag of the day existed before it, then: whatever the first run returns is the tag
  name of the date; the second run returns that same name and raises nothing; the tag
  of the date exists exactly once afterwards; the second run starts one process only,
  the tag command (no push); and the last record it logs is the warning that the tag
  exists and is skipped.
\<close>

theorem snapshot_idempotent:
  assumes "tag_contract sp bd tags_of"
    and "distinct (tags_of (world s0))"
    and "sp [''git'', ''tag'', ''pre-nightly-'' @ isoformat (clock (world s0))] bd (world s0)
           = (Inr r, w1)"
    and "returncode r = 0 \<or>
         ''pre-nightly-'' @ isoformat (clock (world s0)) \<in> set (tags_of (world s0))"
    and "snapshot sp bd s0 = (res1, s1)"
    and "clock (world s1) = clock (world s0)"
    and "snapshot sp bd s1 = (res2, s2)"
  shows "(\<forall>t1. res1 = Inr t1 \<longrightarrow> t1 = ''pre-nightly-'' @ isoformat (clock (world s0))) \<and>
         res2 = Inr (''pre-nightly-'' @ isoformat (clock (world s0))) \<and>
         length (filter (\<lambda>t. t = ''pre-nightly-'' @ isoformat (clock (world s0)))
                   (tags_of (world s2))) = 1 \<and>
         spawned s2 = spawned s1 @
           [([''git'', ''tag'', ''pre-nightly-'' @ isoformat (clock (world s0))], bd)] \<and>
         last (logged s2) = (WARNING, ''Tag %s already exists - skipping.'',
           [AStr (''pre-nightly-'' @ isoformat (clock (world s0)))])"
proof -
  let ?t = "''pre-nightly-'' @ isoformat (clock (world s0))"
  have n: "\<forall>t1. res1 = Inr t1 \<longrightarrow> t1 = ?t"
    using assms(5) snapshot_returns_tag by blast
  from snapshot_first [OF assms(1) assms(2) assms(3) assms(4) assms(5)]
  have in1: "?t \<in> set (tags_of (world s1))" and d1: "distinct (tags_of (world s1))" by simp_all
  from in1 assms(6) have e: "''pre-nightly-'' @ isoformat (clock (world s1)) \<in> set (tags_of (world s1))"
    by simp
  from snapshot_again [OF assms(1) e] assms(6) assms(7)
  have second: "res2 = Inr ?t" "tags_of (world s2) = tags_of (world s1)"
      "spawned s2 = spawned s1 @ [([''git'', ''tag'', ?t], bd)]"
      "last (logged s2) = (WARNING, ''Tag %s already exists - skipping.'', [AStr ?t])"
    by auto
  from in1 d1 second(2) have "length (filter (\<lambda>t. t = ?t) (tags_of (world s2))) = 1"
    by (simp add: count_in_distinct)
  with n second show ?thesis by simp
qed


lemma contains_self_append: "contains sub (sub @ post)"
proof (cases "sub @ post")
  case Nil
  then show ?thesis by simp
next
  case (Cons c cs)
  have "take (length sub) (sub @ post) = sub" by simp
  then have "take (length sub) (c # cs) = sub" unfolding Cons .
  then show ?thesis unfolding Cons by simp
qed

lemma contains_append: "contains sub ys \<Longrightarrow> contains sub (xs @ ys)"
  by (induction xs) auto

lemma tag_exists_message: "contains ''already exists'' (''fatal: tag '' @ t @ '' already exists'')"
proof -
  have "''fatal: tag '' @ t @ '' already exists'' = (''fatal: tag '' @ t @ '' '') @ ''already exists'' @ []"
    by simp
  then show ?thesis
    by (metis contains_append contains_self_append)
qed

lemma git_run_frame: "git_run cmd cwd w = (out, w') \<Longrightarrow> clock w' = clock w \<and> files w' = files w"
  by (auto simp: git_run_def split: prod.splits)

lemma git_tag_cmd:
  "git [''git'', ''tag'', t] g =
     (if t \<in> set (tags g) then (failed 128 (''fatal: tag '' @ t @ '' already exists''), g)
      else (ok [], g\<lparr>tags := t # tags g\<rparr>))"
  by (simp add: git_def)

lemma git_push_tags: "git [''git'', ''push'', ''origin'', t] g = (r, g') \<Longrightarrow> tags g' = tags g"
  by (auto simp: git_def split: if_splits option.splits)

lemma git_tag_contract: "tag_contract git_run bd (\<lambda>w. tags (ext w))"
  unfolding tag_contract_def
proof (intro conjI allI impI)
  fix t w out w'
  assume a: "git_run [''git'', ''tag'', t] bd w = (out, w')" and i: "t \<in> set (tags (ext w))"
  from a i show "tags (ext w') = tags (ext w)"
    by (auto simp: git_run_def git_tag_cmd)
  have o: "out = Inr (failed 128 (''fatal: tag '' @ t @ '' already exists''))"
    using a i by (auto simp: git_run_def git_tag_cmd)
  have f: "stderr (failed 128 m) = m" "returncode (failed 128 m) = 128" for m
    by (simp_all add: failed_def)
  have "returncode (failed 128 (''fatal: tag '' @ t @ '' already exists'')) \<noteq> 0 \<and>
      contains ''already exists'' (stderr (failed 128 (''fatal: tag '' @ t @ '' already exists'')))"
    unfolding f using tag_exists_message by simp
  with o show "\<exists>r. out = Inr r \<and> returncode r \<noteq> 0 \<and> contains ''already exists'' (stderr r)"
    by blast
next
  fix t w out w' r
  assume "git_run [''git'', ''tag'', t] bd w = (out, w')" "t \<notin> set (tags (ext w))"
    "out = Inr r \<and> returncode r = 0"
  then show "tags (ext w') = t # tags (ext w)"
    by (auto simp: git_run_def git_tag_cmd)
next
  fix t w out w'
  assume "git_run [''git'', ''push'', ''origin'', t] bd w = (out, w')"
  then show "tags (ext w') = tags (ext w)"
    by (auto simp: git_run_def split: prod.splits dest: git_push_tags)
qed

lemma snapshot_git_clock: "clock (world (snd (snapshot git_run bd s))) = clock (world s)"
  by (auto simp: snapshot_eq Let_def split: prod.splits sum.splits dest!: git_run_frame)

lemma today_tag: "''pre-nightly-'' @ isoformat (clock (world (start bk day2 g))) = ''pre-nightly-2026-03-07''"
  by (simp add: start_def day2_def isoformat_def zfill_def)

theorem snapshot_idempotent_witness:
  "fst (snapshot git_run book (snd (snapshot git_run book (start project day2 repo0))))
     = Inr ''pre-nightly-2026-03-07'' \<and>
   length (filter (\<lambda>t. t = ''pre-nightly-2026-03-07'')
     (tags (ext (world (snd (snapshot git_run book
        (snd (snapshot git_run book (start project day2 repo0))))))))) = 1 \<and>
   spawned (snd (snapshot git_run book (snd (snapshot git_run book (start project day2 repo0)))))
     = spawned (snd (snapshot git_run book (start project day2 repo0))) @
         [([''git'', ''tag'', ''pre-nightly-2026-03-07''], book)] \<and>
   last (logged (snd (snapshot git_run book (snd (snapshot git_run book (start project day2 repo0))))))
     = (WARNING, ''Tag %s already exists - skipping.'', [AStr ''pre-nightly-2026-03-07''])"
proof -
  let ?s0 = "start project day2 repo0"
  let ?s1 = "snd (snapshot git_run book ?s0)"
  let ?s2 = "snd (snapshot git_run book ?s1)"
  have d: "distinct (tags (ext (world ?s0)))" by (simp add: start_def repo0_def)
  have t: "git_run [''git'', ''tag'', ''pre-nightly-'' @ isoformat (clock (world ?s0))] book (world ?s0)
      = (Inr (ok []), (world ?s0)\<lparr>ext := repo0\<lparr>tags := [''pre-nightly-2026-03-07'']\<rparr>\<rparr>)"
    unfolding today_tag by (simp add: git_run_def git_tag_cmd start_def repo0_def)
  have z: "returncode (ok []) = 0 \<or>
      ''pre-nightly-'' @ isoformat (clock (world ?s0)) \<in> set (tags (ext (world ?s0)))"
    by (simp add: ok_def)
  have r1: "snapshot git_run book ?s0 = (fst (snapshot git_run book ?s0), ?s1)" by simp
  have r2: "snapshot git_run book ?s1 = (fst (snapshot git_run book ?s1), ?s2)" by simp
  from snapshot_idempotent [where sp = git_run and tags_of = "\<lambda>w. tags (ext w)",
      OF git_tag_contract d t z r1 snapshot_git_clock r2]
  show ?thesis unfolding today_tag by simp
qed





subsection \<open>The edit reconciler\<close>

lemma take_prefix_append: "take (length b) q = b \<Longrightarrow> take (length b) (q @ r) = b"
  by (metis append_eq_conv_conj append_take_drop_id append.assoc)

lemma walk_prefix: "(q, es) \<in> set (walk p n) \<Longrightarrow> take (length p) q = p"
proof (induction p n arbitrary: q es rule: walk.induct)
  case (1 p d t)
  then show ?case by simp
next
  case (2 p cs)
  from "2.prems" consider "q = p" | e where "e \<in> set cs" "(q, es) \<in> set (walk (p @ [fst e]) (snd e))"
    by auto
  then show ?case
  proof cases
    case 1
    then show ?thesis by simp
  next
    case 2
    from "2.IH" [OF 2] have "take (length (p @ [fst e])) q = p @ [fst e]" .
    then show ?thesis
      by (metis append_eq_conv_conj append_take_drop_id append.assoc)
  qed
qed

lemma rglob_prefix: "p \<in> set (rglob fs bd pat) \<Longrightarrow> take (length bd) p = bd"
  by (auto simp: rglob_def children_def split: option.splits
      dest!: walk_prefix intro: take_prefix_append)

lemma log_paths:
  "\<forall>p \<in> set ps. take (length bd) p = bd \<Longrightarrow>
   mapM (\<lambda>p. bind (lift (relative_to p bd)) (\<lambda>rel. log INFO ''  %s'' [APath rel])) ps s =
     (Inr (map (\<lambda>p. ()) ps),
      s\<lparr>logged := logged s @ map (\<lambda>p. (INFO, ''  %s'', [APath (drop (length bd) p)])) ps\<rparr>)"
proof (induction ps arbitrary: s)
  case Nil
  show ?case by (simp add: return_def)
next
  case (Cons p ps)
  then show ?case by (simp add: prog_defs relative_to_def)
qed

lemma detect_eq:
  "detect_human_edits bd s =
     (Inr (edited_today (world s) bd),
      s\<lparr>logged := logged s @
         (if edited_today (world s) bd \<noteq> [] then
            (INFO, ''Human edits detected today (%d file(s)):'',
               [AInt (int (length (edited_today (world s) bd)))]) #
            map (\<lambda>p. (INFO, ''  %s'', [APath (drop (length bd) p)])) (edited_today (world s) bd)
          else [(INFO, ''No human edits detected today.'', [])])\<rparr>)"
proof -
  have pre: "\<forall>p \<in> set (edited_today (world s) bd). take (length bd) p = bd"
    by (auto simp: edited_today_def dest: rglob_prefix)
  have w: "world (s\<lparr>logged := l\<rparr>) = world s" for l by simp
  show ?thesis
    unfolding detect_human_edits_def edited_today_def [symmetric]
    using pre
    by (simp add: bind_def gets_def return_def log_def edited_today_def [symmetric]
        log_paths [where bd = bd])
qed


lemma run_checked:
  "run sp cmd cwd True s =
     (case sp cmd cwd (world s) of
        (Inl e, w') \<Rightarrow> (Inl e, ran s cmd cwd w' [])
      | (Inr r, w') \<Rightarrow>
          (if returncode r \<noteq> 0 then Inl (failure r cmd) else Inr r, ran s cmd cwd w' (out_log r)))"
  by (simp add: run_eq failure_def split: prod.splits sum.splits)

lemma commit_spawned:
  assumes "commit_human_edits sp bd fl s = (res, s')"
  shows "(\<exists>n. 1 \<le> n \<and> n \<le> 3 \<and> spawned s' = spawned s @ map (\<lambda>c. (c, bd)) (take n commit_cmds)) \<and>
         (res = Inr () \<longrightarrow> spawned s' = spawned s @ map (\<lambda>c. (c, bd)) commit_cmds)"
proof -
  have t: "take (Suc 0) commit_cmds = [[''git'', ''add'', ''.'']]"
     "take 2 commit_cmds = [[''git'', ''add'', ''.''], [''git'', ''commit'', ''-m'', ''chore: human updates'']]"
     "take 3 commit_cmds = commit_cmds"
    by (simp_all add: commit_cmds_def)
  obtain o1 w1 where a: "sp [''git'', ''add'', ''.''] bd (world s) = (o1, w1)"
    by (cases "sp [''git'', ''add'', ''.''] bd (world s)")
  obtain o2 w2 where c: "sp [''git'', ''commit'', ''-m'', ''chore: human updates''] bd w1 = (o2, w2)"
    by (cases "sp [''git'', ''commit'', ''-m'', ''chore: human updates''] bd w1")
  obtain o3 w3 where p: "sp [''git'', ''push'', ''origin'', ''main''] bd w2 = (o3, w3)"
    by (cases "sp [''git'', ''push'', ''origin'', ''main''] bd w2")
  have one: "spawned s' = spawned s @ map (\<lambda>c. (c, bd)) (take 1 commit_cmds) \<and> res \<noteq> Inr ()
     \<or> spawned s' = spawned s @ map (\<lambda>c. (c, bd)) (take 2 commit_cmds) \<and> res \<noteq> Inr ()
     \<or> spawned s' = spawned s @ map (\<lambda>c. (c, bd)) (take 3 commit_cmds)"
    using assms a c p
    by (auto simp: commit_human_edits_def run_checked bind_def log_def t commit_cmds_def
        split: sum.splits if_splits)
  then consider
      (a) "spawned s' = spawned s @ map (\<lambda>c. (c, bd)) (take 1 commit_cmds)" "res \<noteq> Inr ()"
    | (b) "spawned s' = spawned s @ map (\<lambda>c. (c, bd)) (take 2 commit_cmds)" "res \<noteq> Inr ()"
    | (c) "spawned s' = spawned s @ map (\<lambda>c. (c, bd)) (take 3 commit_cmds)"
    by blast
  then show ?thesis
  proof cases
    case a
    then show ?thesis by (intro conjI exI [of _ 1]) simp_all
  next
    case b
    then show ?thesis by (intro conjI exI [of _ 2]) simp_all
  next
    case c
    then show ?thesis by (intro conjI exI [of _ 3]) (simp_all add: t(3))
  qed
qed

text \<open>
  Claim C6, as amended. A run of step 3 of \<open>main\<close>. If no file was edited today
  (\<open>edited_today\<close> is empty), it returns without starting any process and leaves the
  world as it was. If one or more were, the processes it starts are a non-empty initial
  part of \<^verbatim>\<open>git add .\<close>, \<^verbatim>\<open>git commit -m "chore: human updates"\<close>,
  \<^verbatim>\<open>git push origin main\<close>, in this order and each at most once; and when the step
  returns without an error it has started all three, so exactly one commit command.
\<close>

theorem reconcile_edits_conditional:
  assumes "reconcile_edits sp bd s = (res, s')"
  shows "(edited_today (world s) bd = [] \<longrightarrow>
            res = Inr () \<and> spawned s' = spawned s \<and> world s' = world s) \<and>
         (edited_today (world s) bd \<noteq> [] \<longrightarrow>
            (\<exists>n. 1 \<le> n \<and> n \<le> 3 \<and>
               spawned s' = spawned s @ map (\<lambda>c. (c, bd)) (take n commit_cmds)) \<and>
            (res = Inr () \<longrightarrow> spawned s' = spawned s @ map (\<lambda>c. (c, bd)) commit_cmds))"
proof (cases "edited_today (world s) bd = []")
  case True
  with assms show ?thesis
    by (auto simp: reconcile_edits_def bind_def detect_eq return_def)
next
  case False
  let ?sd = "snd (detect_human_edits bd s)"
  from assms False have "commit_human_edits sp bd (edited_today (world s) bd) ?sd = (res, s')"
    by (simp add: reconcile_edits_def bind_def detect_eq)
  from commit_spawned [OF this] False show ?thesis by (simp add: detect_eq)
qed


lemma touched_edited_today:
  "edited_today (world (start touched day2 g)) book = [book @ [''notes.md'']]"
  by (simp add: edited_today_def rglob_def children_def resolve_def start_def disk_def
      touched_def book_def is_file_def mtime_date_def day2_def)


lemma start_simps: "spawned (start bk d g) = []" "logged (start bk d g) = []"
  by (simp_all add: start_def)

lemma git_add: "git_run [''git'', ''add'', ''.''] cwd w = (Inr (ok []), w)"
  by (simp add: git_run_def git_def)

lemma ok_code: "returncode (ok out) = 0"
  by (simp add: ok_def)

text \<open>
  Claim C6 as stated fails: with one file touched today, the commit need not be
  created. In the example git with an unchanged working tree, \<^verbatim>\<open>git commit\<close>
  exits with 1 (nothing to commit), \<open>run\<close> raises, no push is issued and the branch
  has the commits it had.
\<close>

theorem reconcile_edits_nothing_to_commit:
  "edited_today (world (start touched day2 repo0)) book = [book @ [''notes.md'']] \<and>
   fst (reconcile_edits git_run book (start touched day2 repo0))
     = Inl (RuntimeError ''Command failed (exit 1): git commit -m chore: human updates'') \<and>
   spawned (snd (reconcile_edits git_run book (start touched day2 repo0)))
     = [([''git'', ''add'', ''.''], book),
        ([''git'', ''commit'', ''-m'', ''chore: human updates''], book)] \<and>
   branches (ext (world (snd (reconcile_edits git_run book (start touched day2 repo0)))))
     = branches repo0"
proof -
  let ?w = "world (start touched day2 repo0)"
  let ?r = "\<lparr>returncode = 1, stdout = ''nothing to commit, working tree clean'', stderr = []\<rparr>"
  have c: "git_run [''git'', ''commit'', ''-m'', ''chore: human updates''] book ?w = (Inr ?r, ?w)"
    by (simp add: git_run_def git_def start_def repo0_def)
  have f: "failure ?r [''git'', ''commit'', ''-m'', ''chore: human updates'']
      = RuntimeError ''Command failed (exit 1): git commit -m chore: human updates''"
    by (simp add: failure_def str_int_def)
  have e: "ext ?w = repo0" by (simp add: start_def)
  show ?thesis
    by (simp add: touched_edited_today reconcile_edits_def bind_def detect_eq
        commit_human_edits_def run_checked git_add ok_code c f e start_simps)
qed

theorem reconcile_edits_conditional_witness:
  "edited_today (world (start touched day2 (repo0\<lparr>changed := True\<rparr>))) book \<noteq> [] \<and>
   fst (reconcile_edits git_run book (start touched day2 (repo0\<lparr>changed := True\<rparr>))) = Inr () \<and>
   spawned (snd (reconcile_edits git_run book (start touched day2 (repo0\<lparr>changed := True\<rparr>))))
     = [([''git'', ''add'', ''.''], book),
        ([''git'', ''commit'', ''-m'', ''chore: human updates''], book),
        ([''git'', ''push'', ''origin'', ''main''], book)] \<and>
   edited_today (world (start (Dir []) day2 repo0)) book = [] \<and>
   spawned (snd (reconcile_edits git_run book (start (Dir []) day2 repo0))) = []"
proof -
  let ?s = "start touched day2 (repo0\<lparr>changed := True\<rparr>)"
  let ?w = "world ?s"
  have c: "git_run [''git'', ''commit'', ''-m'', ''chore: human updates''] book ?w
      = (Inr (ok []), ?w\<lparr>ext := repo0\<lparr>branches := [(''main'', [12, 11, 10])]\<rparr>\<rparr>)"
    by (simp add: git_run_def git_def start_def repo0_def commits_of_def)
  have p: "git_run [''git'', ''push'', ''origin'', ''main''] book
        (?w\<lparr>ext := repo0\<lparr>branches := [(''main'', [12, 11, 10])]\<rparr>\<rparr>)
      = (Inr (ok []), ?w\<lparr>ext := repo0\<lparr>branches := [(''main'', [12, 11, 10])],
            remote_branches := [(''main'', [12, 11, 10])]\<rparr>\<rparr>)"
    by (simp add: git_run_def git_def start_def repo0_def)
  have e: "edited_today ?w book \<noteq> []"
    by (simp add: touched_edited_today)
  have e0: "edited_today (world (start (Dir []) day2 repo0)) book = []"
    by (simp add: edited_today_def rglob_def children_def resolve_def start_def disk_def book_def)
  have r: "fst (reconcile_edits git_run book ?s) = Inr ()"
    by (simp add: touched_edited_today reconcile_edits_def bind_def detect_eq
        commit_human_edits_def run_checked git_add c p ok_code log_def)
  have s1: "reconcile_edits git_run book ?s =
      (fst (reconcile_edits git_run book ?s), snd (reconcile_edits git_run book ?s))" by simp
  have s0: "reconcile_edits git_run book (start (Dir []) day2 repo0) =
      (fst (reconcile_edits git_run book (start (Dir []) day2 repo0)),
       snd (reconcile_edits git_run book (start (Dir []) day2 repo0)))" by simp
  from reconcile_edits_conditional [OF s1] e r
  have "spawned (snd (reconcile_edits git_run book ?s))
      = spawned ?s @ map (\<lambda>c. (c, book)) commit_cmds" by blast
  moreover from reconcile_edits_conditional [OF s0] e0
  have "spawned (snd (reconcile_edits git_run book (start (Dir []) day2 repo0)))
      = spawned (start (Dir []) day2 repo0)" by blast
  ultimately show ?thesis using e e0 r by (simp add: commit_cmds_def start_simps)
qed


subsection \<open>The draft branch manager\<close>

lemma run_unchecked:
  "sp cmd cwd (world s) = (Inr r, w') \<Longrightarrow>
   run sp cmd cwd False s = (Inr r, ran s cmd cwd w' (out_log r))"
  by (simp add: run_eq)


lemma logged_only [simp]:
  "world (s\<lparr>logged := l\<rparr>) = world s" "spawned (s\<lparr>logged := l\<rparr>) = spawned s"
  by simp_all








lemma then_log:
  "bind m (\<lambda>_. log lv msg as) s = (res, s') \<Longrightarrow> m s = (resa, sa) \<Longrightarrow>
   spawned s' = spawned sa \<and> world s' = world sa \<and> (res = Inr () \<longrightarrow> resa = Inr ())"
  by (auto simp: bind_def log_def split: sum.splits)

















subsection \<open>The payload builder\<close>

lemma bind_Inr:
  "(bind m f s = (Inr y, s')) = (\<exists>a s1. m s = (Inr a, s1) \<and> f a s1 = (Inr y, s'))"
  by (auto simp: bind_def split: sum.splits prod.splits)

lemma gets_Inr: "(gets g s = (Inr a, s1)) = (a = g (world s) \<and> s1 = s)"
  by (auto simp: gets_def)

lemma return_Inr: "(return a s = (Inr y, s')) = (y = a \<and> s' = s)"
  by (auto simp: return_def)

lemma log_Inr: "(log l m as s = (Inr u, s')) = (s' = s\<lparr>logged := logged s @ [(l, m, as)]\<rparr>)"
  by (auto simp: log_def)

lemma lift_Inr: "(lift r s = (Inr a, s')) = (r = Inr a \<and> s' = s)"
  by (auto simp: lift_def)

lemma read_text_Inr:
  "read_text q s = (Inr t, s1) \<Longrightarrow> s1 = s \<and> t = text_of (files (world s)) q"
  by (auto simp: read_text_def bind_Inr gets_Inr return_Inr raise_def text_of_def
      split: option.splits node.splits)

lemma load_all:
  "mapM (\<lambda>md. bind (read_text md) (\<lambda>t. bind (lift (relative_to md bd)) (\<lambda>rel.
      bind (log INFO msg (args md rel t)) (\<lambda>_. return \<lparr>path = path_str rel, content = t\<rparr>)))) xs s
     = (Inr ys, s') \<Longrightarrow>
   world s' = world s \<and> ys = map (section_of (files (world s)) bd) xs"
proof (induction xs arbitrary: s ys s')
  case Nil
  then show ?case by (simp add: return_Inr)
next
  case (Cons x xs)
  from Cons.prems obtain y s1 zs where
    a: "bind (read_text x) (\<lambda>t. bind (lift (relative_to x bd)) (\<lambda>rel.
          bind (log INFO msg (args x rel t)) (\<lambda>_. return \<lparr>path = path_str rel, content = t\<rparr>))) s
        = (Inr y, s1)"
    and b: "mapM (\<lambda>md. bind (read_text md) (\<lambda>t. bind (lift (relative_to md bd)) (\<lambda>rel.
      bind (log INFO msg (args md rel t)) (\<lambda>_. return \<lparr>path = path_str rel, content = t\<rparr>)))) xs s1
        = (Inr zs, s')"
    and c: "ys = y # zs"
    by (auto simp: bind_Inr return_Inr)
  from a have "world s1 = world s \<and> y = section_of (files (world s)) bd x"
    by (auto simp: bind_Inr return_Inr log_Inr lift_Inr relative_to_def section_of_def
        dest!: read_text_Inr split: if_splits)
  with Cons.IH [OF b] c show ?case by simp
qed

lemma no_dir:
  "\<not> exists_path fs d \<Longrightarrow> glob fs d pat = []"
  "\<not> exists_path fs d \<Longrightarrow> rglob fs d pat = []"
  by (simp_all add: exists_path_def glob_def rglob_def)


lemma sort_Nil_iff: "(sort xs = []) = (xs = ([] :: 'a :: linorder list))"
  using length_sort [of "\<lambda>x. x" xs] by (metis length_0_conv)

lemma review_section:
  "relative_to (path_div (path_div bd ''Review'') ''current.md'') bd = Inr rel \<Longrightarrow>
   rel = drop (length bd) (path_div (path_div bd ''Review'') ''current.md'')"
  by (simp add: relative_to_def split: if_splits)

lemma bindE:
  assumes "bind m f s = (Inr y, s')"
  obtains a s1 where "m s = (Inr a, s1)" "f a s1 = (Inr y, s')"
  using assms by (auto simp: bind_Inr)

lemma phase_load:
  assumes "(if ex then bind (gets (\<lambda>w. sort (G w)))
       (mapM (\<lambda>md. bind (read_text md) (\<lambda>t. bind (lift (relative_to md bd)) (\<lambda>rel.
          bind (log INFO msg (args md rel t)) (\<lambda>_. return \<lparr>path = path_str rel, content = t\<rparr>)))))
     else return []) s = (Inr ys, s1)"
  shows "world s1 = world s \<and>
     ys = (if ex then map (section_of (files (world s)) bd) (sort (G (world s))) else [])"
  using assms by (auto simp: bind_Inr gets_Inr return_Inr dest!: load_all split: if_splits)

lemma phase_review:
  assumes "(if ex then
        bind (read_text q) (\<lambda>t. bind (lift (relative_to q bd)) (\<lambda>rel.
        bind (log INFO msg (args t)) (\<lambda>_. return [\<lparr>path = path_str rel, content = t\<rparr>])))
      else bind (log WARNING msg2 []) (\<lambda>_. return [])) s = (Inr rs, s1)"
  shows "world s1 = world s \<and> rs = (if ex then [section_of (files (world s)) bd q] else [])"
  using assms
  by (auto simp: bind_Inr return_Inr log_Inr lift_Inr relative_to_def section_of_def
      dest!: read_text_Inr split: if_splits)

lemma phase_count:
  assumes "(if ex then bind (gets (\<lambda>w. sort (G w))) (\<lambda>cands.
        if cands \<noteq> [] then
          bind (read_text (last cands)) (\<lambda>t. bind (log INFO msg (args t cands)) (\<lambda>_.
          return (count_words t)))
        else return 0)
      else return 0) s = (Inr wc, s1)"
  shows "world s1 = world s \<and>
     wc = (if ex \<and> G (world s) \<noteq> [] then
             count_words (text_of (files (world s)) (last (sort (G (world s))))) else 0)"
  using assms
  by (auto simp: bind_Inr gets_Inr return_Inr log_Inr sort_Nil_iff
      dest!: read_text_Inr split: if_splits)

lemma build_payload_result:
  assumes "build_payload bd cfg s = (Inr p, s')"
  shows "context_sections p =
           map (section_of (files (world s)) bd)
             (sort (glob (files (world s)) (path_div bd ''Global Material'') ''*.md'') @
              sort (rglob (files (world s)) (path_div bd ''Chapters material'') ''*.md'') @
              (if exists_path (files (world s)) (path_div (path_div bd ''Review'') ''current.md'')
               then [path_div (path_div bd ''Review'') ''current.md''] else [])) \<and>
         word_count p =
           (if glob (files (world s)) (path_div bd ''Current version'') ''Full_Book_*.md'' = [] then 0
            else count_words (text_of (files (world s))
                   (last (sort (glob (files (world s)) (path_div bd ''Current version'')
                      ''Full_Book_*.md''))))) \<and>
         config p = cfg"
  using assms unfolding build_payload_def Let_def
  apply (elim bindE)
  apply (simp only: gets_Inr return_Inr log_Inr)
  apply (elim conjE)
  apply (drule phase_load)
  apply (drule phase_load)
  apply (drule phase_review)
  apply (drule phase_count)
  apply (auto simp: no_dir)
  done


lemma names_le: "(p @ [n] \<le> p @ [m]) = (n \<le> (m :: string))"
  by (induction p) auto

lemma insort_names:
  "insort (p @ [n]) (map (\<lambda>n. p @ [n]) ns) = map (\<lambda>n. p @ [n]) (insort n (ns :: string list))"
  by (induction ns) (simp_all add: names_le)

lemma sort_names: "sort (map (\<lambda>n. p @ [n]) ns) = map (\<lambda>n. p @ [n]) (sort (ns :: string list))"
  by (induction ns) (simp_all add: sort_key_def insort_names [unfolded sort_key_def])

lemma glob_matching: "glob fs dir pat = map (\<lambda>n. dir @ [n]) (matching pat fs dir)"
  by (simp add: glob_def matching_def children_def filter_map comp_def
      split: option.splits node.splits)

lemma sort_glob: "sort (glob fs dir pat) = map (\<lambda>n. dir @ [n]) (sort (matching pat fs dir))"
  by (simp add: glob_matching sort_names)

lemma project_files:
  "matching ''*.md'' (files (world (start project d g))) (book @ [''Global Material'']) = [''b.md'', ''a.md'']"
  "matching ''Full_Book_*.md'' (files (world (start project d g))) (book @ [''Current version''])
     = [''Full_Book_v2.md'', ''Full_Book_v1.md'']"
  "rglob (files (world (start project d g))) (book @ [''Chapters material'']) ''*.md''
     = [book @ [''Chapters material'', ''ch1-extra'', ''a.md''],
        book @ [''Chapters material'', ''ch1'', ''z.md'']]"
  by (simp_all add: matching_def rglob_def children_def resolve_def start_def disk_def project_def book_def)

lemma project_sorted:
  "sort [''b.md'', ''a.md''] = [''a.md'', ''b.md'']"
  "sort [''Full_Book_v2.md'', ''Full_Book_v1.md''] = [''Full_Book_v1.md'', ''Full_Book_v2.md'']"
  "sort [book @ [''Chapters material'', ''ch1-extra'', ''a.md''],
        book @ [''Chapters material'', ''ch1'', ''z.md'']]
     = [book @ [''Chapters material'', ''ch1'', ''z.md''],
        book @ [''Chapters material'', ''ch1-extra'', ''a.md'']]"
  by (simp_all add: book_def less_char_def less_eq_char_def)

lemma chapter_order:
  "\<not> book @ [''Chapters material'', ''ch1-extra'', ''a.md'']
       \<le> book @ [''Chapters material'', ''ch1'', ''z.md'']"
  by (simp add: book_def less_char_def less_eq_char_def)


lemma string_order: "''Chapters material/ch1-extra/a.md'' < ''Chapters material/ch1/z.md''"
  by (simp add: less_char_def)



lemma read_text_eq:
  "read_text q s =
     (case resolve (files (world s)) q of
        None \<Rightarrow> (Inl (OSError ''FileNotFoundError''), s)
      | Some (Dir es) \<Rightarrow> (Inl (OSError ''IsADirectoryError''), s)
      | Some (File d None) \<Rightarrow> (Inl UnicodeDecodeError, s)
      | Some (File d (Some t)) \<Rightarrow> (Inr t, s))"
  by (simp add: read_text_def bind_def gets_def return_def raise_def
      split: option.splits node.splits)

lemma project_texts:
  "resolve (files (world (start project d g))) (book @ [''Global Material'', ''a.md''])
     = Some (File day2 (Some ''alpha one''))"
  "resolve (files (world (start project d g))) (book @ [''Global Material'', ''b.md''])
     = Some (File day1 (Some ''beta''))"
  "resolve (files (world (start project d g))) (book @ [''Chapters material'', ''ch1'', ''z.md''])
     = Some (File day1 (Some ''first chapter''))"
  "resolve (files (world (start project d g))) (book @ [''Chapters material'', ''ch1-extra'', ''a.md''])
     = Some (File day1 (Some ''extra''))"
  "resolve (files (world (start project d g))) (book @ [''Review'', ''current.md''])
     = Some (File day1 (Some ''draft text''))"
  "resolve (files (world (start project d g))) (book @ [''Current version'', ''Full_Book_v2.md''])
     = Some (File day1 (Some ''one two three''))"
  by (simp_all add: resolve_def start_def disk_def project_def book_def)

lemma project_dirs:
  "exists_path (files (world (start project d g))) (book @ [''Global Material''])"
  "exists_path (files (world (start project d g))) (book @ [''Chapters material''])"
  "exists_path (files (world (start project d g))) (book @ [''Review'', ''current.md''])"
  "exists_path (files (world (start project d g))) (book @ [''Current version''])"
  by (simp_all add: exists_path_def resolve_def start_def disk_def project_def book_def)

lemma project_payload:
  "\<exists>p s'. build_payload book cfg (start project d g) = (Inr p, s')"
  by (simp add: build_payload_def Let_def bind_def gets_def return_def lift_def log_def
      read_text_eq relative_to_def path_div_def project_dirs sort_glob project_files
      project_sorted project_texts)





text \<open>
  Claim C4, amended. When \<open>build_payload\<close> returns a payload, its context list is,
  in this order: the entries of \<^verbatim>\<open>Global Material\<close> whose name matches \<^verbatim>\<open>*.md\<close>,
  by ascending name (as strings); the entries below \<^verbatim>\<open>Chapters material\<close>, at
  any depth, whose name matches \<^verbatim>\<open>*.md\<close>, by ascending path, where paths are
  compared part by part (the order of \<^verbatim>\<open>pathlib\<close>) and not as strings; and
  \<^verbatim>\<open>Review/current.md\<close> if it exists. Each section holds the path relative to the
  book directory and the text of the file.
\<close>

theorem build_payload_order:
  assumes "build_payload bd cfg s = (Inr p, s')"
  shows "context_sections p =
           map (section_of (files (world s)) bd)
             (map (\<lambda>n. bd @ [''Global Material'', n])
                (sort (matching ''*.md'' (files (world s)) (bd @ [''Global Material'']))) @
              sort (rglob (files (world s)) (bd @ [''Chapters material'']) ''*.md'') @
              (if exists_path (files (world s)) (bd @ [''Review'', ''current.md''])
               then [bd @ [''Review'', ''current.md'']] else []))"
  using build_payload_result [OF assms] by (simp add: sort_glob path_div_def)

text \<open>On the example project: \<^verbatim>\<open>a.md\<close> comes before \<^verbatim>\<open>b.md\<close> although the
  directory lists them the other way round, and the chapter files follow.\<close>

theorem build_payload_order_witness:
  "\<exists>p. fst (build_payload book DEFAULTS (start project day2 repo0)) = Inr p \<and>
       context_sections p =
         [\<lparr>path = ''Global Material/a.md'', content = ''alpha one''\<rparr>,
          \<lparr>path = ''Global Material/b.md'', content = ''beta''\<rparr>,
          \<lparr>path = ''Chapters material/ch1/z.md'', content = ''first chapter''\<rparr>,
          \<lparr>path = ''Chapters material/ch1-extra/a.md'', content = ''extra''\<rparr>,
          \<lparr>path = ''Review/current.md'', content = ''draft text''\<rparr>]"
proof -
  obtain p s' where r: "build_payload book DEFAULTS (start project day2 repo0) = (Inr p, s')"
    using project_payload by blast
  from build_payload_order [OF r]
  have "context_sections p =
         [\<lparr>path = ''Global Material/a.md'', content = ''alpha one''\<rparr>,
          \<lparr>path = ''Global Material/b.md'', content = ''beta''\<rparr>,
          \<lparr>path = ''Chapters material/ch1/z.md'', content = ''first chapter''\<rparr>,
          \<lparr>path = ''Chapters material/ch1-extra/a.md'', content = ''extra''\<rparr>,
          \<lparr>path = ''Review/current.md'', content = ''draft text''\<rparr>]"
    by (simp add: project_files project_sorted chapter_order project_dirs section_of_def
        text_of_def project_texts path_str_def)
  with r show ?thesis by simp
qed

text \<open>
  Claim C4 as stated fails: the chapter files are not in the lexicographic order of
  their relative paths. \<^verbatim>\<open>ch1/z.md\<close> comes before \<^verbatim>\<open>ch1-extra/a.md\<close>, because
  the part \<^verbatim>\<open>ch1\<close> is a prefix of the part \<^verbatim>\<open>ch1-extra\<close>, while as strings the
  second path is the smaller one: \<^verbatim>\<open>-\<close> precedes \<^verbatim>\<open>/\<close>.
\<close>

theorem build_payload_order_not_by_string:
  "\<exists>p. fst (build_payload book DEFAULTS (start project day2 repo0)) = Inr p \<and>
       map path (context_sections p) =
         [''Global Material/a.md'', ''Global Material/b.md'',
          ''Chapters material/ch1/z.md'', ''Chapters material/ch1-extra/a.md'',
          ''Review/current.md''] \<and>
       ''Chapters material/ch1-extra/a.md'' < ''Chapters material/ch1/z.md''"
proof -
  obtain p s' where r: "build_payload book DEFAULTS (start project day2 repo0) = (Inr p, s')"
    using project_payload by blast
  from build_payload_result [OF r]
  have "map path (context_sections p) =
         [''Global Material/a.md'', ''Global Material/b.md'',
          ''Chapters material/ch1/z.md'', ''Chapters material/ch1-extra/a.md'',
          ''Review/current.md'']"
    by (simp add: sort_glob path_div_def project_files project_sorted chapter_order
        project_dirs section_of_def path_str_def)
  with r string_order show ?thesis by simp
qed



end
